theory Spec2Isabelle
  imports Complex_Main "HOL-Library.Log_Nat" "HOL-Library.Sublist"
begin

section \<open>Values\<close>

text \<open>
  The program is \<^verbatim>\<open>market_maker.py\<close>: two websocket feed tasks and one controller task
  share a \<^verbatim>\<open>StrategyState\<close> object and a queue of order updates.

  A Python \<^verbatim>\<open>float\<close> is modelled by the rational number it denotes; NaN and the
  infinities are outside the model. The rounding of a float operation is written \<open>b64\<close>
  (section Floats). It is written out where the outcome of a comparison is the subject of
  a property: in \<^verbatim>\<open>should_reuse_order\<close> and at its call, where the formatted price and
  quantity are read back by \<^verbatim>\<open>float\<close>, in the position update and the threshold test that
  follow a fill, and in the binary64 quantization of the quantity. Elsewhere the
  arithmetic on floats is exact.

  Python's \<^verbatim>\<open>None\<close> is \<open>None\<close> of an option type, or \<open>JNull\<close> where the value comes out of a
  decoded JSON document.
\<close>

text \<open>What \<^verbatim>\<open>json.loads\<close> returns, and what the code stores of it.\<close>

datatype json =
    JNull
  | JBool bool
  | JInt int
  | JNum rat
  | JStr string
  | JArr "json list"
  | JObj "(string \<times> json) list"

text \<open>The strings \<^verbatim>\<open>'bid'\<close> and \<^verbatim>\<open>'ask'\<close>: the only values the code gives to a mode or a side.\<close>

datatype side = Bid | Ask

fun side_str :: "side \<Rightarrow> string" where
  "side_str Bid = ''bid''"
| "side_str Ask = ''ask''"

text \<open>
  The exceptions of the model. \<open>GatewayError m\<close> is an exception raised by the HTTP client,
  with \<^verbatim>\<open>str(e) = m\<close>; \<open>TimeoutError\<close> is \<^verbatim>\<open>asyncio.TimeoutError\<close>; \<open>ValueError s\<close> is raised
  by \<^verbatim>\<open>float\<close> on the string \<open>s\<close>.
\<close>

datatype py_exc =
    TimeoutError
  | TypeError
  | ValueError string
  | AttributeError
  | ZeroDivisionError
  | GatewayError string

text \<open>Truth value of a Python object, as \<^verbatim>\<open>if x:\<close> tests it.\<close>

fun truthy :: "json \<Rightarrow> bool" where
  "truthy JNull = False"
| "truthy (JBool b) = b"
| "truthy (JInt i) = (i \<noteq> 0)"
| "truthy (JNum r) = (r \<noteq> 0)"
| "truthy (JStr s) = (s \<noteq> [])"
| "truthy (JArr xs) = (xs \<noteq> [])"
| "truthy (JObj kvs) = (kvs \<noteq> [])"

text \<open>Numbers, with \<^verbatim>\<open>bool\<close> the subclass of \<^verbatim>\<open>int\<close> that it is in Python.\<close>

fun py_num :: "json \<Rightarrow> rat option" where
  "py_num (JBool b) = Some (if b then 1 else 0)"
| "py_num (JInt i) = Some (of_int i)"
| "py_num (JNum r) = Some r"
| "py_num _ = None"

text \<open>
  \<^verbatim>\<open>a == b\<close>: numbers compare by value, everything else by structure (the ids and names
  compared in this program are numbers and strings).
\<close>

definition py_eq :: "json \<Rightarrow> json \<Rightarrow> bool" where
  "py_eq a b =
     (case (py_num a, py_num b) of
        (Some x, Some y) \<Rightarrow> x = y
      | _ \<Rightarrow> a = b)"

text \<open>\<^verbatim>\<open>d.get(k)\<close> and \<^verbatim>\<open>d.get(k, default)\<close>; on anything but a dict they raise AttributeError.\<close>

definition py_get :: "json \<Rightarrow> string \<Rightarrow> py_exc + json" where
  "py_get d k =
     (case d of
        JObj kvs \<Rightarrow> Inr (case map_of kvs k of None \<Rightarrow> JNull | Some v \<Rightarrow> v)
      | _ \<Rightarrow> Inl AttributeError)"

definition py_get_default :: "json \<Rightarrow> string \<Rightarrow> json \<Rightarrow> py_exc + json" where
  "py_get_default d k dflt =
     (case d of
        JObj kvs \<Rightarrow> Inr (case map_of kvs k of None \<Rightarrow> dflt | Some v \<Rightarrow> v)
      | _ \<Rightarrow> Inl AttributeError)"

text \<open>\<^verbatim>\<open>k in d\<close> for a dict \<open>d\<close>.\<close>

definition py_has_key :: "json \<Rightarrow> string \<Rightarrow> bool" where
  "py_has_key d k = (case d of JObj kvs \<Rightarrow> map_of kvs k \<noteq> None | _ \<Rightarrow> False)"

text \<open>
  \<^verbatim>\<open>float(x)\<close>. The parser of numeric strings is a parameter \<open>pf\<close> (\<open>None\<close> where Python
  raises ValueError), so that every result holds for every such parser.
\<close>

definition py_float :: "(string \<Rightarrow> rat option) \<Rightarrow> json \<Rightarrow> py_exc + rat" where
  "py_float pf x =
     (case x of
        JBool b \<Rightarrow> Inr (if b then 1 else 0)
      | JInt i \<Rightarrow> Inr (of_int i)
      | JNum r \<Rightarrow> Inr r
      | JStr s \<Rightarrow> (case pf s of None \<Rightarrow> Inl (ValueError s) | Some r \<Rightarrow> Inr r)
      | _ \<Rightarrow> Inl TypeError)"

text \<open>The elements a \<^verbatim>\<open>for\<close> loop visits; TypeError on an object that is not iterable.\<close>

definition py_iter :: "json \<Rightarrow> py_exc + json list" where
  "py_iter x =
     (case x of
        JArr xs \<Rightarrow> Inr xs
      | JObj kvs \<Rightarrow> Inr (map (\<lambda>kv. JStr (fst kv)) kvs)
      | JStr s \<Rightarrow> Inr (map (\<lambda>c. JStr [c]) s)
      | _ \<Rightarrow> Inl TypeError)"

subsection \<open>Substring tests on \<^verbatim>\<open>str(x).lower()\<close>\<close>

fun contains :: "string \<Rightarrow> string \<Rightarrow> bool" where
  "contains needle [] = (needle = [])"
| "contains needle (c # cs) = (prefix needle (c # cs) \<or> contains needle cs)"

definition lower_ascii :: "char \<Rightarrow> char" where
  "lower_ascii c =
     (let n = of_char c :: nat in if 65 \<le> n \<and> n \<le> 90 then char_of (n + 32) else c)"

text \<open>
  \<^verbatim>\<open>needle in str(x).lower()\<close> for a needle of lower-case ASCII letters. The text
  \<^verbatim>\<open>str(x)\<close> of a decoded document is made of its keys and strings, separated by quotes,
  colons, commas and brackets, and of numbers and \<^verbatim>\<open>True\<close>, \<^verbatim>\<open>False\<close>, \<^verbatim>\<open>None\<close>; a run of
  letters of it lies inside one key or one string, or inside one of those three words.
\<close>

fun str_lower_has :: "string \<Rightarrow> json \<Rightarrow> bool" where
  "str_lower_has needle JNull = contains needle ''none''"
| "str_lower_has needle (JBool b) = contains needle (if b then ''true'' else ''false'')"
| "str_lower_has needle (JInt i) = False"
| "str_lower_has needle (JNum r) = False"
| "str_lower_has needle (JStr s) = contains needle (map lower_ascii s)"
| "str_lower_has needle (JArr xs) = (\<exists>x \<in> set xs. str_lower_has needle x)"
| "str_lower_has needle (JObj kvs) =
     (\<exists>kv \<in> set kvs. contains needle (map lower_ascii (fst kv)) \<or> str_lower_has needle (snd kv))"

section \<open>Floats\<close>

text \<open>\<^verbatim>\<open>int(x)\<close> on a float: truncation towards zero.\<close>

definition py_int :: "rat \<Rightarrow> int" where
  "py_int x = (if x \<ge> 0 then \<lfloor>x\<rfloor> else \<lceil>x\<rceil>)"

text \<open>\<^verbatim>\<open>round(x)\<close> on a float: the nearest integer, a tie going to the even one.\<close>

definition py_round :: "rat \<Rightarrow> int" where
  "py_round x =
     (let f = \<lfloor>x\<rfloor>; d = x - of_int f
      in if d < 1 / 2 then f
         else if d > 1 / 2 then f + 1
         else if even f then f else f + 1)"

text \<open>
  A finite binary64 number is a rational \<open>m * 2 ^ e\<close> with \<open>\<bar>m\<bar> < 2 ^ 53\<close>; \<open>b64 x\<close> is the
  one nearest to \<open>x\<close>, a tie going to the even significand (overflow and subnormal
  numbers are outside the model). A float literal, a result of \<^verbatim>\<open>float(s)\<close> and the
  result of every float operation are such roundings.
\<close>

definition pow2 :: "int \<Rightarrow> rat" where
  "pow2 e = (if e \<ge> 0 then 2 ^ nat e else 1 / 2 ^ nat (- e))"

text \<open>The binary exponent \<open>\<lfloor>log\<^sub>2 x\<rfloor>\<close> of a positive rational.\<close>

definition ilog2 :: "rat \<Rightarrow> int" where
  "ilog2 x = (if x \<ge> 1 then bitlen \<lfloor>x\<rfloor> - 1 else - bitlen (\<lceil>1 / x\<rceil> - 1))"

definition b64 :: "rat \<Rightarrow> rat" where
  "b64 x =
     (if x = 0 then 0
      else let e = ilog2 \<bar>x\<bar> - 52
           in of_int (py_round (x / pow2 e)) * pow2 e)"

section \<open>The shared state\<close>

text \<open>
  \<^verbatim>\<open>class StrategyState\<close>. \<open>order_updates\<close> is the \<^verbatim>\<open>asyncio.Queue\<close>, oldest entry first.
  \<open>active_order_id\<close> holds whatever the gateway's response carried, \<open>JNull\<close> for \<^verbatim>\<open>None\<close>.
\<close>

record StrategyState =
  bid_price :: "rat option"
  ask_price :: "rat option"
  mid_price :: "rat option"
  active_order_id :: json
  position_size :: rat
  flip_mode :: bool
  mode :: side
  last_order_price :: "rat option"
  last_order_side :: "side option"
  last_order_quantity :: "rat option"
  account_balance :: "rat option"
  balance_last_updated :: "rat option"
  usdc_balance :: rat
  order_updates :: "json list"
  price_ws_connected :: bool
  user_data_ws_connected :: bool
  supertrend_signal :: "int option"

text \<open>\<^verbatim>\<open>StrategyState.__init__\<close>.\<close>

definition init_state :: "bool \<Rightarrow> StrategyState" where
  "init_state fm =
     \<lparr> bid_price = None, ask_price = None, mid_price = None,
       active_order_id = JNull, position_size = 0, flip_mode = fm,
       mode = (if fm then Ask else Bid),
       last_order_price = None, last_order_side = None, last_order_quantity = None,
       account_balance = None, balance_last_updated = None, usdc_balance = 0,
       order_updates = [], price_ws_connected = False, user_data_ws_connected = False,
       supertrend_signal = None \<rparr>"

subsection \<open>Configuration constants\<close>

definition POSITION_THRESHOLD_USD :: rat where "POSITION_THRESHOLD_USD = 15"
definition DEFAULT_BALANCE_FRACTION :: rat where "DEFAULT_BALANCE_FRACTION = 20 / 100"
definition DEFAULT_PRICE_CHANGE_THRESHOLD :: rat where
  "DEFAULT_PRICE_CHANGE_THRESHOLD = b64 (1 / 1000)"
definition ORDER_REFRESH_INTERVAL :: rat where "ORDER_REFRESH_INTERVAL = 30"
definition RETRY_ON_ERROR_INTERVAL :: rat where "RETRY_ON_ERROR_INTERVAL = 30"
definition MIN_ORDER_INTERVAL :: rat where "MIN_ORDER_INTERVAL = 1"
definition CANCEL_SPECIFIC_ORDER :: bool where "CANCEL_SPECIFIC_ORDER = True"
definition USE_SUPERTREND_SIGNAL :: bool where "USE_SUPERTREND_SIGNAL = True"

section \<open>Validity of price and balance data\<close>

text \<open>
  \<^verbatim>\<open>is_price_data_valid\<close>. \<open>plu\<close> is the module variable \<^verbatim>\<open>price_last_updated\<close>, \<open>now\<close> the
  reading of the event loop's clock.
\<close>

definition is_price_data_valid :: "StrategyState \<Rightarrow> rat option \<Rightarrow> rat \<Rightarrow> bool" where
  "is_price_data_valid state plu now =
     (case (mid_price state, plu) of
        (Some m, Some t) \<Rightarrow> if now - t > 30 then False else True
      | _ \<Rightarrow> False)"

text \<open>\<^verbatim>\<open>is_balance_data_valid\<close>: it reads no clock.\<close>

definition is_balance_data_valid :: "StrategyState \<Rightarrow> bool" where
  "is_balance_data_valid state =
     (if account_balance state = None \<or> balance_last_updated state = None then False else True)"

text \<open>
  The two secondary checks of a controller cycle (\<^verbatim>\<open>market_making_loop\<close>, "Secondary checks
  for fresh data"): \<open>Some d\<close> is "sleep \<open>d\<close> seconds and start the next cycle", \<open>None\<close> is
  "go on with this cycle".
\<close>

definition fresh_data_checks :: "StrategyState \<Rightarrow> rat option \<Rightarrow> rat \<Rightarrow> rat option" where
  "fresh_data_checks state plu now =
     (if \<not> is_price_data_valid state plu now then Some 2
      else if \<not> is_balance_data_valid state then Some 2
      else None)"

section \<open>Order reuse\<close>

text \<open>
  \<^verbatim>\<open>should_reuse_order\<close>. The \<^verbatim>\<open>or\<close> chain is evaluated left to right; the subtraction
  raises TypeError on a missing quantity and the division raises on a zero price. The two
  differences and the quotient are float operations, and \<^verbatim>\<open>0.000000000001\<close> is a float
  literal.
\<close>

definition should_reuse_order ::
  "StrategyState \<Rightarrow> rat \<Rightarrow> side \<Rightarrow> rat \<Rightarrow> rat \<Rightarrow> py_exc + bool" where
  "should_reuse_order state new_price new_side new_quantity threshold =
     (if active_order_id state = JNull then Inr False
      else if last_order_price state = None then Inr False
      else if last_order_side state \<noteq> Some new_side then Inr False
      else case last_order_quantity state of
        None \<Rightarrow> Inl TypeError
      | Some q \<Rightarrow>
          if \<bar>b64 (q - new_quantity)\<bar> > b64 (1 / 10 ^ 12) then Inr False
          else case last_order_price state of
            None \<Rightarrow> Inl TypeError
          | Some p \<Rightarrow>
              if p = 0 then Inl ZeroDivisionError
              else let price_change_pct = b64 (\<bar>b64 (new_price - p)\<bar> / p)
                   in Inr (price_change_pct < threshold))"

section \<open>The account data feed\<close>

text \<open>
  \<^verbatim>\<open>websocket_user_data_updater\<close>, the processing of one received message. Every call of
  the logger is recorded with its level and the fixed part of its text.
\<close>

datatype level = DEBUG | INFO | WARNING | ERROR

type_synonym logs = "(level \<times> string) list"

text \<open>The dict the feed puts on the queue "in a compatible format for the main loop".\<close>

definition fill_event :: "json \<Rightarrow> json \<Rightarrow> json \<Rightarrow> json \<Rightarrow> json" where
  "fill_event i z s d =
     JObj [(''e'', JStr ''ORDER_FILLED''),
           (''o'', JObj [(''i'', i), (''X'', JStr ''FILLED''), (''z'', z), (''s'', s), (''d'', d)])]"

text \<open>
  The \<^verbatim>\<open>account_info\<close> branch. The result is the state, the log and the exception that
  ended the branch, if one did. \<open>now\<close> is the clock.
\<close>

definition handle_account_info ::
  "(string \<Rightarrow> rat option) \<Rightarrow> rat \<Rightarrow> json \<Rightarrow> StrategyState \<Rightarrow> StrategyState \<times> logs \<times> py_exc option" where
  "handle_account_info pf now data state =
     (case py_get_default data ''data'' (JObj []) of
        Inl e \<Rightarrow> (state, [], Some e)
      | Inr info_data \<Rightarrow>
     (case py_get_default info_data ''as'' (JInt 0) of
        Inl e \<Rightarrow> (state, [], Some e)
      | Inr a \<Rightarrow>
     (case py_float pf a of
        Inl e \<Rightarrow> (state, [], Some e)
      | Inr available \<Rightarrow>
          if available > 0
          then (state\<lparr>usdc_balance := available, account_balance := Some available,
                      balance_last_updated := Some now\<rparr>,
                [(DEBUG, ''Balance updated from WS'')], None)
          else (state, [], None))))"

text \<open>
  The body of the loop over \<^verbatim>\<open>positions_list\<close>, for one element. Everything that can raise
  comes before the first assignment to the state, so an exception leaves the state as the
  body found it. The third component is "this element is our symbol's position".
\<close>

definition position_body ::
  "(string \<Rightarrow> rat option) \<Rightarrow> string \<Rightarrow> json \<Rightarrow> StrategyState \<Rightarrow> py_exc + (StrategyState \<times> logs \<times> bool)" where
  "position_body pf symbol position state =
     (case py_get position ''s'' of
        Inl e \<Rightarrow> Inl e
      | Inr s \<Rightarrow>
          if \<not> py_eq s (JStr symbol) then Inr (state, [], False)
          else
     (case py_get_default position ''a'' (JInt 0) of
        Inl e \<Rightarrow> Inl e
      | Inr a \<Rightarrow>
     (case py_float pf a of
        Inl e \<Rightarrow> Inl e
      | Inr amount \<Rightarrow>
     (case py_get_default position ''p'' (JInt 0) of
        Inl e \<Rightarrow> Inl e
      | Inr p \<Rightarrow>
     (case py_float pf p of
        Inl e \<Rightarrow> Inl e
      | Inr entry_price \<Rightarrow>
     (case py_get_default position ''d'' (JStr ''bid'') of
        Inl e \<Rightarrow> Inl e
      | Inr position_side \<Rightarrow>
          let new_position_size =
                (if py_eq position_side (JStr ''ask'') then - \<bar>amount\<bar> else \<bar>amount\<bar>);
              notional_value =
                (if entry_price > 0 then \<bar>new_position_size * entry_price\<bar> else 0);
              changed = (\<bar>position_size state - new_position_size\<bar> > 1 / 10 ^ 9);
              state1 = (if changed then state\<lparr>position_size := new_position_size\<rparr> else state);
              log1 = (if changed then [(INFO, ''Position update from WS'')] else []);
              opening_mode = (if flip_mode state1 then Ask else Bid);
              closing_mode = (if flip_mode state1 then Bid else Ask)
          in if notional_value < POSITION_THRESHOLD_USD
             then (if mode state1 \<noteq> opening_mode
                   then Inr (state1\<lparr>mode := opening_mode, position_size := 0\<rparr>,
                             log1 @ [(INFO, ''Position notional < threshold. Switching mode'')], True)
                   else Inr (state1, log1, True))
             else (if mode state1 \<noteq> closing_mode
                   then Inr (state1\<lparr>mode := closing_mode\<rparr>,
                             log1 @ [(INFO, ''Position notional >= threshold. Switching mode'')], True)
                   else Inr (state1, log1, True))))))))"

text \<open>The loop itself: it carries the state, the log and \<^verbatim>\<open>position_found\<close>.\<close>

fun positions_loop ::
  "(string \<Rightarrow> rat option) \<Rightarrow> string \<Rightarrow> json list \<Rightarrow> StrategyState \<Rightarrow> logs \<Rightarrow> bool
     \<Rightarrow> StrategyState \<times> logs \<times> bool \<times> py_exc option" where
  "positions_loop pf symbol [] state lg found = (state, lg, found, None)"
| "positions_loop pf symbol (position # rest) state lg found =
     (case position_body pf symbol position state of
        Inl e \<Rightarrow> (state, lg, found, Some e)
      | Inr (state', lg', hit) \<Rightarrow> positions_loop pf symbol rest state' (lg @ lg') (found \<or> hit))"

text \<open>The \<^verbatim>\<open>account_positions\<close> branch.\<close>

definition handle_account_positions ::
  "(string \<Rightarrow> rat option) \<Rightarrow> string \<Rightarrow> json \<Rightarrow> StrategyState \<Rightarrow> StrategyState \<times> logs \<times> py_exc option" where
  "handle_account_positions pf symbol data state =
     (case py_get_default data ''data'' (JArr []) of
        Inl e \<Rightarrow> (state, [], Some e)
      | Inr positions_list \<Rightarrow>
     (case py_iter positions_list of
        Inl e \<Rightarrow> (state, [], Some e)
      | Inr ps \<Rightarrow>
     (case positions_loop pf symbol ps state [] False of
        (state1, lg, position_found, Some e) \<Rightarrow> (state1, lg, Some e)
      | (state1, lg, position_found, None) \<Rightarrow>
          if \<not> position_found \<and> length ps = 0
          then (if \<bar>position_size state1\<bar> > 1 / 10 ^ 9
                then let state2 = state1\<lparr>position_size := 0\<rparr>;
                         opening_mode = (if flip_mode state2 then Ask else Bid)
                     in ((if mode state2 \<noteq> opening_mode then state2\<lparr>mode := opening_mode\<rparr> else state2),
                         lg @ [(INFO, ''Position closed from WS'')], None)
                else (state1, lg, None))
          else (state1, lg, None))))"

text \<open>
  The body of the loop over \<^verbatim>\<open>orders_list\<close>, for one element; the third component is "this
  element is the active order". \<^verbatim>\<open>order_updates.put\<close> appends to the queue.
\<close>

definition order_body ::
  "(string \<Rightarrow> rat option) \<Rightarrow> json \<Rightarrow> StrategyState \<Rightarrow> py_exc + (StrategyState \<times> logs \<times> bool)" where
  "order_body pf order state =
     (case py_get order ''i'' of
        Inl e \<Rightarrow> Inl e
      | Inr i \<Rightarrow>
          if \<not> py_eq i (active_order_id state) then Inr (state, [], False)
          else
     (case py_get_default order ''f'' (JInt 0) of
        Inl e \<Rightarrow> Inl e
      | Inr f \<Rightarrow>
     (case py_float pf f of
        Inl e \<Rightarrow> Inl e
      | Inr filled_amount \<Rightarrow>
     (case py_get_default order ''a'' (JInt 0) of
        Inl e \<Rightarrow> Inl e
      | Inr a \<Rightarrow>
     (case py_float pf a of
        Inl e \<Rightarrow> Inl e
      | Inr original_amount \<Rightarrow>
          if filled_amount \<ge> original_amount
          then
     (case (py_get order ''s'', py_get order ''d'') of
        (Inr s, Inr d) \<Rightarrow>
          Inr (state\<lparr>order_updates :=
                       order_updates state @ [fill_event i (JNum filled_amount) s d]\<rparr>,
               [(INFO, ''Order FILLED from WS'')], True)
      | (Inl e, _) \<Rightarrow> Inl e
      | (_, Inl e) \<Rightarrow> Inl e)
          else Inr (state, [], True))))))"

fun orders_loop ::
  "(string \<Rightarrow> rat option) \<Rightarrow> json list \<Rightarrow> StrategyState \<Rightarrow> logs \<Rightarrow> bool
     \<Rightarrow> StrategyState \<times> logs \<times> bool \<times> py_exc option" where
  "orders_loop pf [] state lg found = (state, lg, found, None)"
| "orders_loop pf (order # rest) state lg found =
     (case order_body pf order state of
        Inl e \<Rightarrow> (state, lg, found, Some e)
      | Inr (state', lg', hit) \<Rightarrow> orders_loop pf rest state' (lg @ lg') (found \<or> hit))"

text \<open>
  The event queued when the active order is missing from the list: the quantity is
  \<^verbatim>\<open>last_order_quantity\<close> (or the integer 0 when that is unset or zero), the side is
  \<^verbatim>\<open>last_order_side\<close> (or \<^verbatim>\<open>'bid'\<close>).
\<close>

definition missing_order_event :: "string \<Rightarrow> StrategyState \<Rightarrow> json" where
  "missing_order_event symbol state =
     fill_event (active_order_id state)
       (case last_order_quantity state of
          None \<Rightarrow> JInt 0
        | Some q \<Rightarrow> if q \<noteq> 0 then JNum q else JInt 0)
       (JStr symbol)
       (case last_order_side state of
          None \<Rightarrow> JStr ''bid''
        | Some sd \<Rightarrow> JStr (side_str sd))"

text \<open>The \<^verbatim>\<open>account_orders\<close> branch.\<close>

definition handle_account_orders ::
  "(string \<Rightarrow> rat option) \<Rightarrow> string \<Rightarrow> json \<Rightarrow> StrategyState \<Rightarrow> StrategyState \<times> logs \<times> py_exc option" where
  "handle_account_orders pf symbol data state =
     (case py_get_default data ''data'' (JArr []) of
        Inl e \<Rightarrow> (state, [], Some e)
      | Inr orders_list \<Rightarrow>
          if \<not> truthy (active_order_id state) then (state, [], None)
          else
     (case py_iter orders_list of
        Inl e \<Rightarrow> (state, [], Some e)
      | Inr os \<Rightarrow>
     (case orders_loop pf os state [] False of
        (state1, lg, order_found, Some e) \<Rightarrow> (state1, lg, Some e)
      | (state1, lg, order_found, None) \<Rightarrow>
          if \<not> order_found
          then (state1\<lparr>order_updates := order_updates state1 @ [missing_order_event symbol state1]\<rparr>,
                lg @ [(INFO, ''Active order no longer in open orders (filled or cancelled)'')],
                None)
          else (state1, lg, None))))"

text \<open>
  One received message, from \<^verbatim>\<open>json.loads\<close> to the end of the inner \<^verbatim>\<open>try\<close>. \<open>message\<close> is
  \<open>None\<close> when the text is not JSON. The channel tests are four separate \<^verbatim>\<open>if\<close>s; an
  exception in one of them skips the rest and is logged. The last component of the result
  is "the receive loop is left" (\<^verbatim>\<open>break\<close>).
\<close>

definition user_data_on_message ::
  "(string \<Rightarrow> rat option) \<Rightarrow> string \<Rightarrow> rat \<Rightarrow> json option \<Rightarrow> StrategyState
     \<Rightarrow> StrategyState \<times> logs \<times> bool" where
  "user_data_on_message pf symbol now message state =
     (case message of
        None \<Rightarrow> (state, [(WARNING, ''Failed to decode user data WebSocket message'')], False)
      | Some data \<Rightarrow>
     (case py_get data ''channel'' of
        Inl e \<Rightarrow> (state, [(ERROR, ''Error processing user data message'')], False)
      | Inr channel \<Rightarrow>
          if str_lower_has ''subscribed'' data
          then (state, [(INFO, ''Subscription confirmed'')], False)
          else
            let (s1, l1, x1) =
                  (if py_eq channel (JStr ''account_info'')
                   then handle_account_info pf now data state else (state, [], None))
            in if x1 \<noteq> None then (s1, l1 @ [(ERROR, ''Error processing user data message'')], False)
            else
            let (s2, l2, x2) =
                  (if py_eq channel (JStr ''account_positions'')
                   then handle_account_positions pf symbol data s1 else (s1, [], None))
            in if x2 \<noteq> None
               then (s2, l1 @ l2 @ [(ERROR, ''Error processing user data message'')], False)
            else
            let (s3, l3, x3) =
                  (if py_eq channel (JStr ''account_orders'')
                   then handle_account_orders pf symbol data s2 else (s2, [], None))
            in if x3 \<noteq> None
               then (s3, l1 @ l2 @ l3 @ [(ERROR, ''Error processing user data message'')], False)
            else
            if py_has_key data ''error''
            then (case py_get data ''error'' of
                    Inr err \<Rightarrow>
                      if str_lower_has ''auth'' err
                      then (s3, l1 @ l2 @ l3 @ [(ERROR, ''WebSocket error''),
                                  (WARNING, ''Authentication error, reconnecting...'')], True)
                      else (s3, l1 @ l2 @ l3 @ [(ERROR, ''WebSocket error'')], False)
                  | Inl e \<Rightarrow>
                      (s3, l1 @ l2 @ l3 @ [(ERROR, ''Error processing user data message'')], False))
            else (s3, l1 @ l2 @ l3, False)))"

section \<open>The market price feed\<close>

text \<open>
  The module variables \<^verbatim>\<open>price_last_updated\<close> (written by the price feed) and
  \<^verbatim>\<open>last_order_time\<close> (written by the controller) live beside the shared state.
\<close>

record world =
  st :: StrategyState
  price_last_updated :: "rat option"
  last_order_time :: rat













section \<open>Quantization\<close>

text \<open>\<^verbatim>\<open>round_down\<close>, in exact arithmetic.\<close>

definition round_down :: "rat \<Rightarrow> nat \<Rightarrow> rat" where
  "round_down v precision =
     (let factor = (10::int) ^ precision
      in of_int (py_int (v * of_int factor)) / of_int factor)"

text \<open>
  The decimal number that \<^verbatim>\<open>f"{x:.{p}f}"\<close> prints: \<open>x\<close> rounded to \<open>p\<close> decimals, ties to
  even.
\<close>

definition fmt_fixed :: "rat \<Rightarrow> nat \<Rightarrow> rat" where
  "fmt_fixed x p = of_int (py_round (x * 10 ^ p)) / 10 ^ p"

text \<open>The dict returned by \<^verbatim>\<open>get_symbol_filters\<close>.\<close>

record symbol_filters =
  price_precision :: nat
  tick_size :: rat
  quantity_precision :: nat
  step_size :: rat
  min_notional :: rat

text \<open>
  "Adjust order to conform to exchange filters": the values of \<^verbatim>\<open>formatted_price\<close> and
  \<^verbatim>\<open>formatted_quantity\<close>.
\<close>

definition quantize_price :: "symbol_filters \<Rightarrow> rat \<Rightarrow> py_exc + rat" where
  "quantize_price flt limit_price =
     (if tick_size flt = 0 then Inl ZeroDivisionError
      else let rounded_price = of_int (py_round (limit_price / tick_size flt)) * tick_size flt
           in Inr (fmt_fixed rounded_price (price_precision flt)))"

definition quantize_quantity :: "symbol_filters \<Rightarrow> rat \<Rightarrow> rat" where
  "quantize_quantity flt quantity_to_trade =
     (let rounded_quantity = round_down quantity_to_trade (quantity_precision flt)
      in fmt_fixed rounded_quantity (quantity_precision flt))"

section \<open>The controller\<close>

text \<open>
  \<^verbatim>\<open>market_making_loop\<close>. The calls to the gateway and the sleeps of a cycle are recorded in
  order. The decimal strings given to \<^verbatim>\<open>place_order\<close> are represented by their values.
\<close>

datatype effect =
    CancelOrder string json
  | CancelAllOrders string
  | PlaceOrder string rat rat side bool
  | Sleep rat

text \<open>
  \<^verbatim>\<open>opening_mode\<close> and \<^verbatim>\<open>closing_mode\<close> are computed once, before the loop, from the
  \<^verbatim>\<open>flip_mode\<close> the state has then (\<open>fm\<close>).
\<close>

definition opening_mode :: "bool \<Rightarrow> side" where
  "opening_mode fm = (if fm then Ask else Bid)"

definition closing_mode :: "bool \<Rightarrow> side" where
  "closing_mode fm = (if fm then Bid else Ask)"

text \<open>
  What the outside does during one cycle: the clock readings, the spreads returned by
  \<^verbatim>\<open>get_spreads\<close>, the outcome of each gateway call the cycle may make (\<open>None\<close>: the call
  returned; \<open>Some e\<close>: it raised \<open>e\<close>), the entries the account feed puts on the queue while
  the cycle waits on it, and how many \<^verbatim>\<open>order_updates.get()\<close> return before the
  refresh interval is over.
\<close>

record env =
  clock :: rat
  spreads :: "py_exc + rat \<times> rat"
  outage_cancel :: "py_exc option"
  rate_clock :: rat
  replace_cancel :: "py_exc option"
  place_outcome :: "py_exc + json"
  placed_clock :: rat
  arriving :: "json list"
  deliveries :: nat
  cleanup_cancel :: "py_exc option"

definition clear_order_tracking :: "StrategyState \<Rightarrow> StrategyState" where
  "clear_order_tracking state =
     state\<lparr>last_order_price := None, last_order_side := None, last_order_quantity := None\<rparr>"

text \<open>
  "Primary check for WebSocket health", the branch taken when a feed is down: a cancel of
  the active order if there is one, whose failure is logged and nothing more, then one
  second of sleep and the next cycle.
\<close>

definition ws_outage_branch ::
  "string \<Rightarrow> py_exc option \<Rightarrow> StrategyState \<Rightarrow> StrategyState \<times> effect list" where
  "ws_outage_branch symbol cancel_outcome state =
     (if truthy (active_order_id state)
      then let call = (if CANCEL_SPECIFIC_ORDER
                       then CancelOrder symbol (active_order_id state)
                       else CancelAllOrders symbol)
           in (case cancel_outcome of
                 None \<Rightarrow> (clear_order_tracking (state\<lparr>active_order_id := JNull\<rparr>), [call, Sleep 1])
               | Some cancel_error \<Rightarrow> (state, [call, Sleep 1]))
      else (state, [Sleep 1]))"

text \<open>"Supertrend Signal Integration".\<close>

definition supertrend_adjust :: "StrategyState \<Rightarrow> StrategyState" where
  "supertrend_adjust state =
     (if USE_SUPERTREND_SIGNAL \<and> supertrend_signal state \<noteq> None
      then let current_notional =
                 (case mid_price state of
                    None \<Rightarrow> 0
                  | Some m \<Rightarrow> if m \<noteq> 0 then \<bar>position_size state * m\<bar> else 0)
           in if current_notional < POSITION_THRESHOLD_USD
              then let new_flip_mode = (supertrend_signal state = Some (- 1))
                   in if flip_mode state \<noteq> new_flip_mode
                      then state\<lparr>flip_mode := new_flip_mode\<rparr> else state
              else state
      else state)"

text \<open>
  "Determine Strategy and Parameters": side, reduce-only flag, quantity and limit price.
  Arithmetic on an unset price or balance raises TypeError, as does the debug line that
  formats bid and ask.
\<close>

definition limit_price_for :: "side \<Rightarrow> rat \<Rightarrow> rat \<Rightarrow> rat \<Rightarrow> rat" where
  "limit_price_for sd mid buy_spread sell_spread =
     (if sd = Ask then mid * (1 + sell_spread) else mid * (1 - buy_spread))"

definition capital_order ::
  "side \<Rightarrow> rat \<Rightarrow> rat \<Rightarrow> StrategyState \<Rightarrow> py_exc + (side \<times> bool \<times> rat \<times> rat)" where
  "capital_order sd buy_spread sell_spread state =
     (case account_balance state of
        None \<Rightarrow> Inl TypeError
      | Some balance \<Rightarrow>
          let order_amount_usd = balance * DEFAULT_BALANCE_FRACTION
          in (case mid_price state of
                None \<Rightarrow> Inl TypeError
              | Some mid \<Rightarrow>
                  if mid = 0 then Inl ZeroDivisionError
                  else let quantity_to_trade = order_amount_usd / mid
                       in Inr (sd, False, quantity_to_trade,
                               limit_price_for sd mid buy_spread sell_spread)))"

definition order_parameters ::
  "bool \<Rightarrow> rat \<Rightarrow> rat \<Rightarrow> StrategyState \<Rightarrow> py_exc + (side \<times> bool \<times> rat \<times> rat)" where
  "order_parameters fm buy_spread sell_spread state =
     (let res =
        (if mode state = closing_mode fm
         then (if \<bar>position_size state\<bar> > 1 / 1000
               then (case mid_price state of
                       None \<Rightarrow> Inl TypeError
                     | Some mid \<Rightarrow>
                         Inr (closing_mode fm, True, \<bar>position_size state\<bar>,
                              limit_price_for (closing_mode fm) mid buy_spread sell_spread))
               else capital_order (closing_mode fm) buy_spread sell_spread state)
         else capital_order (opening_mode fm) buy_spread sell_spread state)
      in case res of
           Inl e \<Rightarrow> Inl e
         | Inr r \<Rightarrow> if bid_price state = None \<or> ask_price state = None then Inl TypeError else Inr r)"

text \<open>
  "Update state after a fill", after the wait on a newly placed order. An opening fill
  always ends in the closing mode; a closing fill returns to the opening mode when the
  position is below the threshold in coins, which is 0 without a mid price. The sum or
  difference that becomes the position and the quotient that is the threshold are float
  operations.
\<close>

definition apply_fill :: "bool \<Rightarrow> rat \<Rightarrow> StrategyState \<Rightarrow> StrategyState" where
  "apply_fill fm filled_qty state =
     clear_order_tracking
       (if mode state = opening_mode fm
        then (if opening_mode fm = Bid
              then state\<lparr>position_size := b64 (position_size state + filled_qty)\<rparr>
              else state\<lparr>position_size := b64 (position_size state - filled_qty)\<rparr>)
             \<lparr>mode := closing_mode fm\<rparr>
        else let state1 = (if closing_mode fm = Ask
                           then state\<lparr>position_size := b64 (position_size state - filled_qty)\<rparr>
                           else state\<lparr>position_size := b64 (position_size state + filled_qty)\<rparr>);
                 position_threshold_coins =
                   (case mid_price state1 of
                      None \<Rightarrow> 0
                    | Some m \<Rightarrow> if m \<noteq> 0 then b64 (POSITION_THRESHOLD_USD / m) else 0)
             in if \<bar>position_size state1\<bar> < position_threshold_coins
                then state1\<lparr>mode := opening_mode fm\<rparr>
                else state1)"

text \<open>
  The same block in the order-reuse branch. There the threshold is computed without the
  guard, so an unset or zero mid price raises after the position was changed.
\<close>

definition apply_fill_reused :: "bool \<Rightarrow> rat \<Rightarrow> StrategyState \<Rightarrow> StrategyState \<times> py_exc option" where
  "apply_fill_reused fm filled_qty state =
     (if mode state = opening_mode fm
      then (clear_order_tracking
              ((if opening_mode fm = Bid
                then state\<lparr>position_size := b64 (position_size state + filled_qty)\<rparr>
                else state\<lparr>position_size := b64 (position_size state - filled_qty)\<rparr>)
               \<lparr>mode := closing_mode fm\<rparr>), None)
      else let state1 = (if closing_mode fm = Ask
                         then state\<lparr>position_size := b64 (position_size state - filled_qty)\<rparr>
                         else state\<lparr>position_size := b64 (position_size state + filled_qty)\<rparr>)
           in (case mid_price state1 of
                 None \<Rightarrow> (state1, Some TypeError)
               | Some m \<Rightarrow>
                   if m = 0 then (state1, Some ZeroDivisionError)
                   else let position_threshold_coins = b64 (POSITION_THRESHOLD_USD / m)
                        in (clear_order_tracking
                              (if \<bar>position_size state1\<bar> < position_threshold_coins
                               then state1\<lparr>mode := opening_mode fm\<rparr>
                               else state1), None)))"

subsection \<open>Waiting on the queue\<close>

text \<open>
  The body of the loop that waits for the fill of a newly placed order, for one dequeued
  entry: \<open>Some q\<close> is \<^verbatim>\<open>break\<close> with \<^verbatim>\<open>filled_qty = q\<close>, \<open>None\<close> is the next iteration.
  \<open>aid\<close> is \<^verbatim>\<open>state.active_order_id\<close>.
\<close>

definition fill_check :: "(string \<Rightarrow> rat option) \<Rightarrow> json \<Rightarrow> json \<Rightarrow> py_exc + rat option" where
  "fill_check pf aid update =
     (case py_get update ''e'' of
        Inl e \<Rightarrow> Inl e
      | Inr ev \<Rightarrow>
          if \<not> py_eq ev (JStr ''ORDER_FILLED'') then Inr None
          else
     (case py_get_default update ''o'' (JObj []) of
        Inl e \<Rightarrow> Inl e
      | Inr order_data \<Rightarrow>
     (case py_get order_data ''i'' of
        Inl e \<Rightarrow> Inl e
      | Inr i \<Rightarrow>
          if \<not> py_eq i aid then Inr None
          else
     (case py_get order_data ''X'' of
        Inl e \<Rightarrow> Inl e
      | Inr status \<Rightarrow>
     (case py_get_default order_data ''z'' (JNum 0) of
        Inl e \<Rightarrow> Inl e
      | Inr z \<Rightarrow>
     (case py_float pf z of
        Inl e \<Rightarrow> Inl e
      | Inr filled_qty \<Rightarrow>
          if py_eq status (JStr ''FILLED'') then Inr (Some filled_qty) else Inr None))))))"

text \<open>The body of the loop that monitors a reused order.\<close>

definition reuse_check :: "(string \<Rightarrow> rat option) \<Rightarrow> json \<Rightarrow> json \<Rightarrow> py_exc + rat option" where
  "reuse_check pf aid update =
     (case py_get update ''type'' of
        Inl e \<Rightarrow> Inl e
      | Inr t \<Rightarrow>
          if \<not> py_eq t (JStr ''order_update'') then Inr None
          else
     (case py_get_default update ''order'' (JObj []) of
        Inl e \<Rightarrow> Inl e
      | Inr order_data \<Rightarrow>
     (case py_get order_data ''order_id'' of
        Inl e \<Rightarrow> Inl e
      | Inr i \<Rightarrow>
          if \<not> py_eq i aid then Inr None
          else
     (case py_get order_data ''status'' of
        Inl e \<Rightarrow> Inl e
      | Inr status \<Rightarrow>
     (case py_get_default order_data ''filled_amount'' (JNum 0) of
        Inl e \<Rightarrow> Inl e
      | Inr fa \<Rightarrow>
     (case py_float pf fa of
        Inl e \<Rightarrow> Inl e
      | Inr filled_qty \<Rightarrow>
          let final = (py_eq status (JStr ''filled'') \<or> py_eq status (JStr ''cancelled'')
                       \<or> py_eq status (JStr ''rejected'') \<or> py_eq status (JStr ''expired''))
          in if py_eq status (JStr ''partially_filled'')
             then
     (case py_get_default order_data ''average_price'' (JNum 0) of
        Inl e \<Rightarrow> Inl e
      | Inr ap \<Rightarrow>
     (case py_float pf ap of
        Inl e \<Rightarrow> Inl e
      | Inr avg_price \<Rightarrow>
          if avg_price > 0 \<and> filled_qty * avg_price > POSITION_THRESHOLD_USD
          then Inr (Some filled_qty)
          else if final then Inr (Some filled_qty) else Inr None))
             else if final then Inr (Some filled_qty) else Inr None))))))"

text \<open>
  The \<^verbatim>\<open>while True\<close> loop around \<^verbatim>\<open>wait_for(order_updates.get(), remaining_timeout)\<close>, for
  either body. The first argument after the body is the number of entries delivered
  before the time is up; TimeoutError is raised when it is used up or the queue stays
  empty. The second component is what is left on the queue.
\<close>

datatype wait_result = Filled rat | TimedOut | Raised py_exc

fun wait_loop ::
  "(json \<Rightarrow> py_exc + rat option) \<Rightarrow> nat \<Rightarrow> json list \<Rightarrow> wait_result \<times> json list" where
  "wait_loop body 0 queue = (TimedOut, queue)"
| "wait_loop body (Suc n) [] = (TimedOut, [])"
| "wait_loop body (Suc n) (update # queue) =
     (case body update of
        Inl e \<Rightarrow> (Raised e, queue)
      | Inr (Some filled_qty) \<Rightarrow> (Filled filled_qty, queue)
      | Inr None \<Rightarrow> wait_loop body n queue)"

subsection \<open>The two paths of a cycle\<close>

text \<open>
  The order-reuse branch: the existing order is monitored until the refresh interval is
  over. The result is the state, the effects and the exception that leaves the branch, if
  one does.
\<close>

definition reuse_path ::
  "(string \<Rightarrow> rat option) \<Rightarrow> bool \<Rightarrow> env \<Rightarrow> StrategyState
     \<Rightarrow> StrategyState \<times> effect list \<times> py_exc option" where
  "reuse_path pf fm ev state =
     (case wait_loop (reuse_check pf (active_order_id state)) (deliveries ev)
             (order_updates state @ arriving ev) of
        (res, queue) \<Rightarrow>
          let state1 = state\<lparr>order_updates := queue\<rparr>
          in (case res of
                TimedOut \<Rightarrow> (state1, [Sleep (1 / 100)], None)
              | Raised e \<Rightarrow> (state1, [], Some e)
              | Filled filled_qty \<Rightarrow>
                  (case apply_fill_reused fm filled_qty state1 of
                     (state2, None) \<Rightarrow> (state2, [Sleep (1 / 100)], None)
                   | (state2, Some e) \<Rightarrow> (state2, [], Some e))))"

text \<open>
  The order id taken from the response of \<^verbatim>\<open>place_order\<close>:
  \<^verbatim>\<open>{"success": true, "data": {"order_id": 123}}\<close>, or \<^verbatim>\<open>order_id\<close> at the top level.
\<close>

definition response_order_id :: "json \<Rightarrow> py_exc + json" where
  "response_order_id active_order =
     (case py_get active_order ''success'' of
        Inl e \<Rightarrow> Inl e
      | Inr success \<Rightarrow>
          if truthy success \<and> py_has_key active_order ''data''
          then (case py_get active_order ''data'' of
                  Inl e \<Rightarrow> Inl e
                | Inr d \<Rightarrow> py_get d ''order_id'')
          else py_get active_order ''order_id'')"

text \<open>
  From "Rate Limiting Protection" to the end of the \<^verbatim>\<open>try\<close> block: the rate-limit sleep,
  the cancel of the order being replaced, the safety check for reduce-only orders, the
  placement, the wait for the fill and then either the fill or the timeout. \<open>price\<close> and
  \<open>quantity\<close> are the decimal numbers of the formatted strings; what is recorded for the
  reuse test is what \<^verbatim>\<open>float\<close> reads back of them.
\<close>

definition place_path ::
  "(string \<Rightarrow> rat option) \<Rightarrow> bool \<Rightarrow> string \<Rightarrow> env \<Rightarrow> side \<Rightarrow> bool \<Rightarrow> rat \<Rightarrow> rat \<Rightarrow> world
     \<Rightarrow> world \<times> effect list \<times> py_exc option" where
  "place_path pf fm symbol ev sd reduce_only price quantity w =
     (let state = st w;
          time_since_last_order = rate_clock ev - last_order_time w;
          eff1 = (if time_since_last_order < MIN_ORDER_INTERVAL
                  then [Sleep (MIN_ORDER_INTERVAL - time_since_last_order)] else []);
          eff2 = (if truthy (active_order_id state)
                  then [if CANCEL_SPECIFIC_ORDER
                        then CancelOrder symbol (active_order_id state)
                        else CancelAllOrders symbol]
                  else []);
          state1 = (if truthy (active_order_id state) \<and> replace_cancel ev = None
                    then state\<lparr>active_order_id := JNull\<rparr> else state)
      in if reduce_only \<and> \<bar>position_size state1\<bar> < 1 / 10 ^ 9
         then (w\<lparr>st := state1\<lparr>mode := opening_mode fm, position_size := 0\<rparr>\<rparr>,
               eff1 @ eff2 @ [Sleep 2], None)
         else
     (case mid_price state1 of
        None \<Rightarrow> (w\<lparr>st := state1\<rparr>, eff1 @ eff2, Some TypeError)
      | Some mid \<Rightarrow>
          if mid = 0 then (w\<lparr>st := state1\<rparr>, eff1 @ eff2, Some ZeroDivisionError)
          else
     (let eff3 = eff1 @ eff2 @ [PlaceOrder symbol price quantity sd reduce_only]
      in case place_outcome ev of
           Inl order_error \<Rightarrow> (w\<lparr>st := state1\<rparr>, eff3, Some order_error)
         | Inr active_order \<Rightarrow>
     (let w1 = w\<lparr>last_order_time := placed_clock ev\<rparr>
      in case response_order_id active_order of
           Inl e \<Rightarrow> (w1\<lparr>st := state1\<rparr>, eff3, Some e)
         | Inr oid \<Rightarrow>
     (let state2 = state1\<lparr>active_order_id := oid, last_order_price := Some (b64 price),
                          last_order_side := Some sd, last_order_quantity := Some (b64 quantity)\<rparr>
      in case wait_loop (fill_check pf (active_order_id state2)) (deliveries ev)
                (order_updates state2 @ arriving ev) of
           (res, queue) \<Rightarrow>
             let state3 = state2\<lparr>order_updates := queue\<rparr>
             in (case res of
                   Raised e \<Rightarrow> (w1\<lparr>st := state3\<rparr>, eff3, Some e)
                 | Filled filled_qty \<Rightarrow>
                     (w1\<lparr>st := apply_fill fm filled_qty state3\<rparr>, eff3 @ [Sleep (1 / 100)], None)
                 | TimedOut \<Rightarrow>
                     (w1\<lparr>st := clear_order_tracking (state3\<lparr>active_order_id := JNull\<rparr>)\<rparr>,
                      eff3 @ [if CANCEL_SPECIFIC_ORDER \<and> truthy (active_order_id state3)
                              then CancelOrder symbol (active_order_id state3)
                              else CancelAllOrders symbol,
                              Sleep (1 / 100)],
                      None)))))))"

subsection \<open>The exception handlers of the loop\<close>

text \<open>
  \<^verbatim>\<open>str(e)\<close>. The texts Python gives to its own exceptions are abridged; a ValueError of
  \<^verbatim>\<open>float\<close> quotes the string it could not convert.
\<close>

fun exc_str :: "py_exc \<Rightarrow> string" where
  "exc_str TimeoutError = []"
| "exc_str TypeError = ''unsupported operand type(s)''"
| "exc_str (ValueError s) = ''could not convert string to float: '' @ s"
| "exc_str AttributeError = ''object has no attribute''"
| "exc_str ZeroDivisionError = ''division by zero''"
| "exc_str (GatewayError m) = m"

text \<open>
  The test for a position desync: a 422 while in closing mode, or the venue's
  "No position found".
\<close>

definition desync_error :: "bool \<Rightarrow> py_exc \<Rightarrow> StrategyState \<Rightarrow> bool" where
  "desync_error fm e state =
     (let error_msg = exc_str e
      in (contains ''422'' error_msg \<and> mode state = closing_mode fm)
         \<or> contains ''No position found'' error_msg)"

text \<open>
  The two \<^verbatim>\<open>except\<close> clauses. Both end normally, and the loop goes to its next cycle: the
  third component of the result is the exception that leaves the handler, and it is
  \<open>None\<close> on every path. \<open>cleanup\<close> is the outcome of the cancel made during cleanup.
\<close>

definition handle_exception ::
  "bool \<Rightarrow> string \<Rightarrow> py_exc option \<Rightarrow> py_exc \<Rightarrow> StrategyState
     \<Rightarrow> StrategyState \<times> effect list \<times> py_exc option" where
  "handle_exception fm symbol cleanup e state =
     (case e of
        TimeoutError \<Rightarrow> (state, [Sleep (1 / 100)], None)
      | _ \<Rightarrow>
          if desync_error fm e state
          then (clear_order_tracking
                  (state\<lparr>position_size := 0, mode := opening_mode fm, active_order_id := JNull\<rparr>),
                [Sleep 2], None)
          else if truthy (active_order_id state)
          then let call = (if CANCEL_SPECIFIC_ORDER
                           then CancelOrder symbol (active_order_id state)
                           else CancelAllOrders symbol)
               in (case cleanup of
                     None \<Rightarrow> (clear_order_tracking (state\<lparr>active_order_id := JNull\<rparr>),
                              [call, Sleep RETRY_ON_ERROR_INTERVAL], None)
                   | Some cleanup_error \<Rightarrow> (state, [call, Sleep RETRY_ON_ERROR_INTERVAL], None))
          else (state, [Sleep RETRY_ON_ERROR_INTERVAL], None))"

subsection \<open>One cycle, and runs of cycles\<close>

definition feeds_connected :: "StrategyState \<Rightarrow> bool" where
  "feeds_connected state = (price_ws_connected state \<and> user_data_ws_connected state)"

text \<open>
  The \<^verbatim>\<open>try\<close> block of one cycle. The feed tasks run whenever the controller awaits;
  here a cycle runs without them, except that they append to the queue while it waits
  there, and their other writes fall between two cycles. The properties of the single
  blocks (the fill, the exception handler, the waits) are stated for every state at the
  entry of the block, so they hold under every interleaving.
\<close>

definition cycle_body ::
  "(string \<Rightarrow> rat option) \<Rightarrow> bool \<Rightarrow> string \<Rightarrow> symbol_filters \<Rightarrow> env \<Rightarrow> world
     \<Rightarrow> world \<times> effect list \<times> py_exc option" where
  "cycle_body pf fm symbol flt ev w =
     (if \<not> price_ws_connected (st w) \<or> \<not> user_data_ws_connected (st w)
      then (case ws_outage_branch symbol (outage_cancel ev) (st w) of
              (state', effs) \<Rightarrow> (w\<lparr>st := state'\<rparr>, effs, None))
      else
     (let state = supertrend_adjust (st w); w0 = w\<lparr>st := state\<rparr>
      in case fresh_data_checks state (price_last_updated w) (clock ev) of
           Some d \<Rightarrow> (w0, [Sleep d], None)
         | None \<Rightarrow>
     (case spreads ev of
        Inl e \<Rightarrow> (w0, [], Some e)
      | Inr (buy_spread, sell_spread) \<Rightarrow>
     (case order_parameters fm buy_spread sell_spread state of
        Inl e \<Rightarrow> (w0, [], Some e)
      | Inr (sd, reduce_only, quantity_to_trade, limit_price) \<Rightarrow>
     (case quantize_price flt limit_price of
        Inl e \<Rightarrow> (w0, [], Some e)
      | Inr price \<Rightarrow>
          let quantity = quantize_quantity flt quantity_to_trade
          in if b64 quantity \<le> 0 then (w0, [Sleep ORDER_REFRESH_INTERVAL], None)
             else if b64 (b64 price * b64 quantity) < min_notional flt
             then (w0, [Sleep ORDER_REFRESH_INTERVAL], None)
             else
     (case should_reuse_order state (b64 price) sd (b64 quantity)
             DEFAULT_PRICE_CHANGE_THRESHOLD of
        Inl e \<Rightarrow> (w0, [], Some e)
      | Inr True \<Rightarrow>
          (case reuse_path pf fm ev state of
             (state', effs, x) \<Rightarrow> (w0\<lparr>st := state'\<rparr>, effs, x))
      | Inr False \<Rightarrow> place_path pf fm symbol ev sd reduce_only price quantity w0))))))"

text \<open>One iteration of \<^verbatim>\<open>while not shutdown_requested\<close>: the block and its handlers.\<close>

definition market_making_cycle ::
  "(string \<Rightarrow> rat option) \<Rightarrow> bool \<Rightarrow> string \<Rightarrow> symbol_filters \<Rightarrow> env \<Rightarrow> world
     \<Rightarrow> world \<times> effect list" where
  "market_making_cycle pf fm symbol flt ev w =
     (case cycle_body pf fm symbol flt ev w of
        (w1, effs, None) \<Rightarrow> (w1, effs)
      | (w1, effs, Some e) \<Rightarrow>
          (case handle_exception fm symbol (cleanup_cancel ev) e (st w1) of
             (state2, effs2, x) \<Rightarrow> (w1\<lparr>st := state2\<rparr>, effs @ effs2)))"

text \<open>
  A run of cycles. Between two cycles the feed tasks run: \<open>feed\<close> is what they do to the
  world before the cycle starts. The result lists, for each cycle, the state it started
  from and its effects.
\<close>

fun controller_run ::
  "(string \<Rightarrow> rat option) \<Rightarrow> bool \<Rightarrow> string \<Rightarrow> symbol_filters \<Rightarrow> ((world \<Rightarrow> world) \<times> env) list
     \<Rightarrow> world \<Rightarrow> (StrategyState \<times> effect list) list" where
  "controller_run pf fm symbol flt [] w = []"
| "controller_run pf fm symbol flt ((feed, ev) # rest) w =
     (let w0 = feed w
      in case market_making_cycle pf fm symbol flt ev w0 of
           (w1, effs) \<Rightarrow> (st w0, effs) # controller_run pf fm symbol flt rest w1)"

text \<open>The fields of the state that only the controller assigns.\<close>

definition keeps_order_fields :: "(world \<Rightarrow> world) \<Rightarrow> bool" where
  "keeps_order_fields feed =
     (\<forall>w. active_order_id (st (feed w)) = active_order_id (st w))"

definition is_place :: "effect \<Rightarrow> bool" where
  "is_place x = (case x of PlaceOrder s p q sd r \<Rightarrow> True | _ \<Rightarrow> False)"

definition is_cancel :: "effect \<Rightarrow> bool" where
  "is_cancel x = (case x of CancelOrder s i \<Rightarrow> True | CancelAllOrders s \<Rightarrow> True | _ \<Rightarrow> False)"

section \<open>Quantization in binary64\<close>

text \<open>
  The quantity path once more, now with the rounding that each float operation performs.
\<close>

text \<open>
  \<^verbatim>\<open>round_down\<close>: \<^verbatim>\<open>value * factor\<close> is a float product, \<^verbatim>\<open>int(...)\<close> is exact, and the
  quotient of the two integers is rounded once.
\<close>

definition round_down_b64 :: "rat \<Rightarrow> nat \<Rightarrow> rat" where
  "round_down_b64 v precision =
     (let factor = (10::int) ^ precision
      in b64 (of_int (py_int (b64 (v * b64 (of_int factor)))) / of_int factor))"

text \<open>
  \<^verbatim>\<open>float(f"{rounded_quantity:.{p}f}")\<close>: the decimal string is the exact value of the float
  rounded to \<open>p\<close> decimals, and \<^verbatim>\<open>float\<close> reads it back to the nearest binary64 number.
\<close>

definition quantize_quantity_b64 :: "symbol_filters \<Rightarrow> rat \<Rightarrow> rat" where
  "quantize_quantity_b64 flt quantity_to_trade =
     (let rounded_quantity = round_down_b64 quantity_to_trade (quantity_precision flt)
      in b64 (fmt_fixed rounded_quantity (quantity_precision flt)))"

section \<open>Vocabulary of the properties\<close>

text \<open>The fields of the state that describe the working order.\<close>

definition order_fields :: "StrategyState \<Rightarrow> json \<times> rat option \<times> side option \<times> rat option" where
  "order_fields s =
     (active_order_id s, last_order_price s, last_order_side s, last_order_quantity s)"

text \<open>
  The shape of what the account feed puts on the queue: a dict with
  \<^verbatim>\<open>'e': 'ORDER_FILLED'\<close> and without a key \<^verbatim>\<open>'type'\<close>.
\<close>

definition queued_by_feed :: "json \<Rightarrow> bool" where
  "queued_by_feed u =
     (case u of
        JObj kvs \<Rightarrow> map_of kvs ''e'' = Some (JStr ''ORDER_FILLED'') \<and> map_of kvs ''type'' = None
      | _ \<Rightarrow> False)"

text \<open>
  States used as examples: a long-biased state with a mid price of 100, and the same with
  order 7 working, a bid of 2 at 100.
\<close>

definition quoted_state :: StrategyState where
  "quoted_state =
     (init_state False)\<lparr>bid_price := Some (9998 / 100), ask_price := Some (10002 / 100),
                        mid_price := Some 100, account_balance := Some 1000,
                        balance_last_updated := Some 0\<rparr>"

definition working_state :: StrategyState where
  "working_state =
     quoted_state\<lparr>active_order_id := JInt 7, last_order_price := Some 100,
                  last_order_side := Some Bid, last_order_quantity := Some 2\<rparr>"

text \<open>
  Messages used as examples: a position of 1 BTC entered at 100, an order list without
  order 7, and one of the entries the feed queues.
\<close>

definition long_position_msg :: json where
  "long_position_msg =
     JObj [(''channel'', JStr ''account_positions''),
           (''data'', JArr [JObj [(''s'', JStr ''BTC''), (''a'', JNum 1), (''p'', JNum 100),
                                  (''d'', JStr ''bid'')]])]"

definition other_orders_msg :: json where
  "other_orders_msg =
     JObj [(''channel'', JStr ''account_orders''),
           (''data'', JArr [JObj [(''i'', JInt 8), (''s'', JStr ''BTC''), (''d'', JStr ''ask''),
                                  (''a'', JNum 1), (''f'', JNum 0)]])]"

definition no_parser :: "string \<Rightarrow> rat option" where
  "no_parser s = None"


text \<open>The entry the feed queues when order 7, a bid of 2, is filled.\<close>

definition fill_of_7 :: json where
  "fill_of_7 = fill_event (JInt 7) (JNum 2) (JStr ''BTC'') (JStr ''bid'')"

text \<open>An environment in which the gateway answers every call and nothing else happens.\<close>

definition quiet_env :: env where
  "quiet_env =
     \<lparr> clock = 10, spreads = Inr (6 / 1000, 6 / 1000), outage_cancel = None, rate_clock = 10,
       replace_cancel = None,
       place_outcome = Inr (JObj [(''success'', JBool True),
                                  (''data'', JObj [(''order_id'', JInt 8)])]),
       placed_clock = 10, arriving = [], deliveries = 0, cleanup_cancel = None \<rparr>"

text \<open>
  Trading rules with two price decimals and three quantity decimals, and a world in which
  both feeds are connected, prices are fresh and a long position of 1.5 is being closed.
\<close>

definition example_filters :: symbol_filters where
  "example_filters =
     \<lparr> price_precision = 2, tick_size = 1 / 100, quantity_precision = 3,
       step_size = 1 / 1000, min_notional = 10 \<rparr>"




text \<open>A world in which order 7 is working and both feeds are down.\<close>

definition outage_world :: world where
  "outage_world = \<lparr> st = working_state, price_last_updated = Some 5, last_order_time = 0 \<rparr>"

definition no_feed_writes :: "world \<Rightarrow> world" where
  "no_feed_writes w = w"

text \<open>The gateway calls and sleeps of a run, in order.\<close>

definition run_effects :: "(StrategyState \<times> effect list) list \<Rightarrow> effect list" where
  "run_effects r = concat (map snd r)"

text \<open>
  The number of cycles of a run up to and including the first one in which the cancel of
  the outage branch returns; all of them when it returns in none.
\<close>

fun cycles_to_first_cancel :: "((world \<Rightarrow> world) \<times> env) list \<Rightarrow> nat" where
  "cycles_to_first_cancel [] = 0"
| "cycles_to_first_cancel ((feed, ev) # rest) =
     (if outage_cancel ev = None then 1 else 1 + cycles_to_first_cancel rest)"

text \<open>An environment in which the cancel of the outage branch fails.\<close>

definition failing_cancel_env :: env where
  "failing_cancel_env =
     quiet_env\<lparr>outage_cancel := Some (GatewayError ''503, message=Service Unavailable'')\<rparr>"

section \<open>Properties\<close>

subsection \<open>Validity of balance data\<close>

text \<open>
  C10. \<^verbatim>\<open>is_balance_data_valid\<close> is true exactly when \<^verbatim>\<open>account_balance\<close> and
  \<^verbatim>\<open>balance_last_updated\<close> are both set. No age is checked: whatever the time \<open>t\<close> of the
  last balance update and whatever the clock \<open>now\<close>, a state with price data at most 30
  seconds old passes the controller's data checks, while price data older than 30 seconds
  is rejected and the cycle is skipped.
\<close>

theorem C10_balance_valid_no_staleness:
  "(is_balance_data_valid state \<longleftrightarrow>
      account_balance state \<noteq> None \<and> balance_last_updated state \<noteq> None)
   \<and> is_balance_data_valid (state\<lparr>account_balance := Some b, balance_last_updated := Some t\<rparr>)
   \<and> (mid_price state = Some m \<and> now - tp \<le> 30 \<longrightarrow>
        fresh_data_checks (state\<lparr>account_balance := Some b, balance_last_updated := Some t\<rparr>)
          (Some tp) now = None)
   \<and> (now' - tp' > 30 \<longrightarrow>
        \<not> is_price_data_valid state (Some tp') now'
        \<and> fresh_data_checks state (Some tp') now' = Some 2)"
  by (auto simp: is_balance_data_valid_def fresh_data_checks_def is_price_data_valid_def
           split: option.splits)

theorem C10_witness:
  "is_balance_data_valid quoted_state
   \<and> \<not> is_balance_data_valid (init_state False)
   \<and> fresh_data_checks quoted_state (Some 999990) 1000000 = None
   \<and> fresh_data_checks quoted_state (Some 0) 31 = Some 2"
  using C10_balance_valid_no_staleness
          [where state = quoted_state and b = 1000 and t = 0
             and m = 100 and now = 1000000 and tp = 999990 and now' = 31 and tp' = 0]
        C10_balance_valid_no_staleness
          [where state = "init_state False" and b = 1000 and t = 0
             and m = 100 and now = 1000000 and tp = 999990 and now' = 31 and tp' = 0]
  by (simp add: init_state_def quoted_state_def)

subsection \<open>The rounding error of a float operation\<close>

text \<open>
  \<open>b64\<close> moves a number by at most the fraction \<open>2\<^sup>-\<^sup>5\<^sup>3\<close> of itself, and keeps its sign.
\<close>

lemma pow2_powi: "pow2 e = 2 powi e"
  by (simp add: pow2_def power_int_def field_simps)

lemma pow2_pos: "0 < pow2 e"
  by (simp add: pow2_powi)

lemma pow2_add: "pow2 (a + b) = pow2 a * pow2 b"
  by (simp add: pow2_powi power_int_add)

lemma py_round_error: "\<bar>of_int (py_round x) - x\<bar> \<le> 1 / 2"
proof -
  have a: "of_int \<lfloor>x\<rfloor> \<le> x" "x < of_int \<lfloor>x\<rfloor> + 1" by linarith+
  show ?thesis
    using a by (auto simp: py_round_def Let_def abs_le_iff)
qed

lemma bitlen_ge_1: "0 < n \<Longrightarrow> 1 \<le> bitlen n"
  using bitlen_bounds[of n] by (cases "bitlen n \<le> 0") auto

lemma ilog2_bounds:
  assumes "0 < x"
  shows "pow2 (ilog2 x) \<le> x \<and> x < pow2 (ilog2 x + 1)"
proof (cases "1 \<le> x")
  case True
  then have n: "0 < \<lfloor>x\<rfloor>" by simp
  from bitlen_bounds[OF n]
  have b: "2 ^ nat (bitlen \<lfloor>x\<rfloor> - 1) \<le> \<lfloor>x\<rfloor>" "\<lfloor>x\<rfloor> < 2 ^ nat (bitlen \<lfloor>x\<rfloor>)" by auto
  have bl: "1 \<le> bitlen \<lfloor>x\<rfloor>" using n by (rule bitlen_ge_1)
  have lo: "(2::rat) ^ nat (bitlen \<lfloor>x\<rfloor> - 1) \<le> x"
  proof -
    have "(of_int (2 ^ nat (bitlen \<lfloor>x\<rfloor> - 1)) :: rat) \<le> of_int \<lfloor>x\<rfloor>"
      using b(1) by (simp only: of_int_le_iff)
    also have "\<dots> \<le> x" by simp
    finally show ?thesis by simp
  qed
  have hi: "x < (2::rat) ^ nat (bitlen \<lfloor>x\<rfloor>)"
  proof -
    from b(2) have "\<lfloor>x\<rfloor> + 1 \<le> 2 ^ nat (bitlen \<lfloor>x\<rfloor>)" by simp
    then have "(of_int (\<lfloor>x\<rfloor> + 1) :: rat) \<le> of_int (2 ^ nat (bitlen \<lfloor>x\<rfloor>))"
      by (simp only: of_int_le_iff)
    moreover have "x < of_int (\<lfloor>x\<rfloor> + 1)" by linarith
    ultimately show ?thesis by simp
  qed
  from True bl lo hi show ?thesis
    by (simp add: ilog2_def pow2_def)
next
  case False
  with assms have x1: "x < 1" by simp
  let ?n = "\<lceil>1 / x\<rceil> - 1"
  have inv: "1 < 1 / x" using assms x1 by simp
  then have n: "0 < ?n" by linarith
  from bitlen_bounds[OF n]
  have b: "2 ^ nat (bitlen ?n - 1) \<le> ?n" "?n < 2 ^ nat (bitlen ?n)" by auto
  have bl: "1 \<le> bitlen ?n" using n by (rule bitlen_ge_1)
  have up: "1 / x \<le> (2::rat) ^ nat (bitlen ?n)"
  proof -
    from b(2) have "\<lceil>1 / x\<rceil> \<le> 2 ^ nat (bitlen ?n)" by simp
    then have "(of_int \<lceil>1 / x\<rceil> :: rat) \<le> of_int (2 ^ nat (bitlen ?n))"
      by (simp only: of_int_le_iff)
    moreover have "1 / x \<le> of_int \<lceil>1 / x\<rceil>" by (rule le_of_int_ceiling)
    ultimately have "1 / x \<le> (of_int (2 ^ nat (bitlen ?n)) :: rat)" by linarith
    then show ?thesis by simp
  qed
  have dn: "(2::rat) ^ nat (bitlen ?n - 1) < 1 / x"
  proof -
    have "(of_int (2 ^ nat (bitlen ?n - 1)) :: rat) \<le> of_int ?n"
      using b(1) by (simp only: of_int_le_iff)
    moreover have "of_int ?n < 1 / x" by linarith
    ultimately show ?thesis by simp
  qed
  have p: "(0::rat) < 2 ^ nat (bitlen ?n)" "(0::rat) < 2 ^ nat (bitlen ?n - 1)" by simp_all
  have lo: "1 / 2 ^ nat (bitlen ?n) \<le> x"
    using up assms p(1) by (simp add: field_simps)
  have hi: "x < 1 / 2 ^ nat (bitlen ?n - 1)"
    using dn assms p(2) by (simp add: field_simps)
  have e1: "pow2 (- bitlen ?n) = 1 / 2 ^ nat (bitlen ?n)"
    using bl by (simp add: pow2_def)
  have e2: "pow2 (- bitlen ?n + 1) = 1 / 2 ^ nat (bitlen ?n - 1)"
  proof (cases "bitlen ?n = 1")
    case True
    then show ?thesis by (simp add: pow2_def)
  next
    case False
    with bl have "\<not> (0 \<le> - bitlen ?n + 1)" by simp
    moreover have "nat (- (- bitlen ?n + 1)) = nat (bitlen ?n - 1)" by simp
    ultimately show ?thesis by (simp add: pow2_def)
  qed
  from x1 lo hi e1 e2 show ?thesis
    by (simp add: ilog2_def)
qed

lemma b64_rel_error: "\<bar>b64 x - x\<bar> \<le> \<bar>x\<bar> / 2 ^ 53"
proof (cases "x = 0")
  case True
  then show ?thesis by (simp add: b64_def)
next
  case False
  define e where "e = ilog2 \<bar>x\<bar> - 52"
  define y where "y = x / pow2 e"
  have pe: "0 < pow2 e" by (rule pow2_pos)
  have x: "x = y * pow2 e" using pe by (simp add: y_def)
  have "b64 x = of_int (py_round y) * pow2 e"
    using False by (simp add: b64_def Let_def e_def y_def)
  then have "b64 x - x = (of_int (py_round y) - y) * pow2 e"
    by (subst (2) x) (simp add: algebra_simps)
  then have "\<bar>b64 x - x\<bar> = \<bar>of_int (py_round y) - y\<bar> * pow2 e"
    using pe by (simp add: abs_mult)
  also have "\<dots> \<le> (1 / 2) * pow2 e"
    using py_round_error[of y] pe by (simp add: mult_right_mono)
  also have "\<dots> = pow2 (ilog2 \<bar>x\<bar>) / 2 ^ 53"
  proof -
    have "pow2 (ilog2 \<bar>x\<bar>) = pow2 (e + 52)" by (simp add: e_def)
    also have "\<dots> = pow2 e * 2 ^ 52" by (simp add: pow2_add) (simp add: pow2_def)
    finally show ?thesis by simp
  qed
  also have "\<dots> \<le> \<bar>x\<bar> / 2 ^ 53"
    using ilog2_bounds[of "\<bar>x\<bar>"] False by (simp add: divide_right_mono)
  finally show ?thesis .
qed

lemma rel_error_bounds:
  fixes a x :: rat
  assumes "\<bar>a - x\<bar> \<le> x / 2 ^ 53"
  shows "x * (1 - 1 / 2 ^ 53) \<le> a \<and> a \<le> x * (1 + 1 / 2 ^ 53)"
proof -
  have l: "x * (1 - 1 / 2 ^ 53) = x - x / 2 ^ 53" and u: "x * (1 + 1 / 2 ^ 53) = x + x / 2 ^ 53"
    by (simp_all add: algebra_simps)
  from assms have "x - x / 2 ^ 53 \<le> a" "a \<le> x + x / 2 ^ 53" by linarith+
  then show ?thesis by (simp only: l u)
qed

lemma b64_abs_bounds:
  "\<bar>x\<bar> * (1 - 1 / 2 ^ 53) \<le> \<bar>b64 x\<bar> \<and> \<bar>b64 x\<bar> \<le> \<bar>x\<bar> * (1 + 1 / 2 ^ 53)"
proof -
  have "\<bar>\<bar>b64 x\<bar> - \<bar>x\<bar>\<bar> \<le> \<bar>b64 x - x\<bar>" by (rule abs_triangle_ineq3)
  with b64_rel_error[of x] have "\<bar>\<bar>b64 x\<bar> - \<bar>x\<bar>\<bar> \<le> \<bar>x\<bar> / 2 ^ 53" by linarith
  then show ?thesis by (rule rel_error_bounds)
qed

lemma b64_nonneg_bounds:
  assumes "0 \<le> x"
  shows "x * (1 - 1 / 2 ^ 53) \<le> b64 x \<and> b64 x \<le> x * (1 + 1 / 2 ^ 53)"
proof -
  from b64_rel_error[of x] assms
  have "\<bar>b64 x - x\<bar> \<le> x / 2 ^ 53" by simp
  then show ?thesis by (rule rel_error_bounds)
qed

text \<open>
  \<open>b64\<close> is monotone on the positive numbers and leaves unchanged every \<open>k * 2 ^ j\<close> with
  \<open>\<bar>k\<bar> < 2 ^ 53\<close>; a positive number that it leaves unchanged is of that form, with a
  significand of 53 bits.
\<close>

lemma pow2_mono: "a \<le> b \<Longrightarrow> pow2 a \<le> pow2 b"
  by (simp add: pow2_powi power_int_increasing)

lemma pow2_less_cancel: "pow2 a < pow2 b \<Longrightarrow> a < b"
  using pow2_mono[of b a] by (cases "a < b") auto

lemma ilog2_mono:
  assumes "0 < x" and "x \<le> y"
  shows "ilog2 x \<le> ilog2 y"
proof -
  from assms have y: "0 < y" by simp
  from ilog2_bounds[OF assms(1)] ilog2_bounds[OF y] assms(2)
  have "pow2 (ilog2 x) < pow2 (ilog2 y + 1)" by linarith
  from pow2_less_cancel[OF this] show ?thesis by simp
qed

lemma ilog2_unique:
  assumes "pow2 n \<le> x" and "x < pow2 (n + 1)"
  shows "ilog2 x = n"
proof -
  from assms(1) pow2_pos[of n] have x: "0 < x" by linarith
  from ilog2_bounds[OF x] assms
  have "pow2 (ilog2 x) < pow2 (n + 1)" "pow2 n < pow2 (ilog2 x + 1)" by linarith+
  from pow2_less_cancel[OF this(1)] pow2_less_cancel[OF this(2)] show ?thesis by simp
qed

lemma py_round_of_int: "py_round (of_int k) = k"
  by (simp add: py_round_def Let_def)

lemma py_round_mono:
  assumes "a \<le> b"
  shows "py_round a \<le> py_round b"
proof (cases "\<lfloor>a\<rfloor> = \<lfloor>b\<rfloor>")
  case True
  with assms show ?thesis by (auto simp: py_round_def Let_def)
next
  case False
  with assms have "\<lfloor>a\<rfloor> < \<lfloor>b\<rfloor>" using floor_mono[of a b] by linarith
  moreover have "py_round a \<le> \<lfloor>a\<rfloor> + 1" by (auto simp: py_round_def Let_def)
  moreover have "\<lfloor>b\<rfloor> \<le> py_round b" by (auto simp: py_round_def Let_def)
  ultimately show ?thesis by linarith
qed

lemma pow2_52: "pow2 52 = 2 ^ 52"
  by (simp add: pow2_def)

lemma pow2_53: "pow2 53 = 2 ^ 53"
  by (simp add: pow2_def)

lemma pow2_1: "pow2 1 = 2"
  by (simp add: pow2_def)

lemma pow2_0: "pow2 0 = 1"
  by (simp add: pow2_def)

lemma scaled_range:
  assumes "0 < x"
  shows "2 ^ 52 \<le> x / pow2 (ilog2 x - 52) \<and> x / pow2 (ilog2 x - 52) < 2 ^ 53"
proof -
  define e where "e = ilog2 x - 52"
  have p: "0 < pow2 e" by (rule pow2_pos)
  have "pow2 (52 + e) = pow2 52 * pow2 e" by (rule pow2_add)
  then have a: "pow2 (ilog2 x) = 2 ^ 52 * pow2 e" by (simp add: e_def pow2_52)
  have "pow2 (53 + e) = pow2 53 * pow2 e" by (rule pow2_add)
  moreover have "53 + e = ilog2 x + 1" by (simp add: e_def)
  ultimately have b: "pow2 (ilog2 x + 1) = 2 ^ 53 * pow2 e" by (simp only: pow2_53)
  from ilog2_bounds[OF assms] a b
  have "2 ^ 52 * pow2 e \<le> x" "x < 2 ^ 53 * pow2 e" by simp_all
  with p have "2 ^ 52 \<le> x / pow2 e \<and> x / pow2 e < 2 ^ 53"
    by (simp add: pos_le_divide_eq pos_divide_less_eq)
  then show ?thesis by (simp only: e_def)
qed

lemma b64_pos_form:
  assumes "0 < x"
  shows "b64 x = of_int (py_round (x / pow2 (ilog2 x - 52))) * pow2 (ilog2 x - 52)
       \<and> 2 ^ 52 \<le> py_round (x / pow2 (ilog2 x - 52))
       \<and> py_round (x / pow2 (ilog2 x - 52)) \<le> 2 ^ 53"
proof -
  let ?y = "x / pow2 (ilog2 x - 52)"
  from scaled_range[OF assms] have r: "of_int (2 ^ 52) \<le> ?y" "?y \<le> of_int (2 ^ 53)" by simp_all
  from py_round_mono[OF r(1)] py_round_mono[OF r(2)]
  have "2 ^ 52 \<le> py_round ?y" "py_round ?y \<le> 2 ^ 53" by (simp_all only: py_round_of_int)
  with assms show ?thesis by (simp add: b64_def Let_def)
qed

lemma b64_mono_pos:
  assumes "0 < x" and "x \<le> y"
  shows "b64 x \<le> b64 y"
proof -
  from assms have y: "0 < y" by simp
  let ?ex = "ilog2 x - 52" and ?ey = "ilog2 y - 52"
  note fx = b64_pos_form[OF assms(1)] and fy = b64_pos_form[OF y]
  from ilog2_mono[OF assms] have le: "?ex \<le> ?ey" by simp
  show ?thesis
  proof (cases "?ex = ?ey")
    case True
    have "x / pow2 ?ey \<le> y / pow2 ?ey"
      using assms(2) pow2_pos[of ?ey] by (simp add: divide_right_mono)
    from py_round_mono[OF this]
    have "(of_int (py_round (x / pow2 ?ey)) :: rat) \<le> of_int (py_round (y / pow2 ?ey))" by simp
    then have "of_int (py_round (x / pow2 ?ey)) * pow2 ?ey \<le> of_int (py_round (y / pow2 ?ey)) * pow2 ?ey"
      using pow2_pos[of ?ey] by (simp add: mult_right_mono)
    with fx fy True show ?thesis by simp
  next
    case False
    with le have lt: "?ex + 1 \<le> ?ey" by simp
    have "(of_int (py_round (x / pow2 ?ex)) :: rat) \<le> of_int (2 ^ 53)"
      using fx by (simp only: of_int_le_iff)
    then have "b64 x \<le> 2 ^ 53 * pow2 ?ex"
      using fx pow2_pos[of ?ex] by (simp add: mult_right_mono)
    also have "\<dots> = 2 ^ 52 * pow2 (?ex + 1)"
    proof -
      have "pow2 (?ex + 1) = pow2 ?ex * 2" by (simp only: pow2_add pow2_1)
      then show ?thesis by simp
    qed
    also have "\<dots> \<le> 2 ^ 52 * pow2 ?ey"
      using pow2_mono[OF lt] by simp
    also have "\<dots> \<le> b64 y"
    proof -
      have "(of_int (2 ^ 52) :: rat) \<le> of_int (py_round (y / pow2 ?ey))"
        using fy by (simp only: of_int_le_iff)
      then show ?thesis using fy pow2_pos[of ?ey] by (simp add: mult_right_mono)
    qed
    finally show ?thesis .
  qed
qed

lemma b64_representable:
  assumes "\<bar>k\<bar> < 2 ^ 53"
  shows "b64 (of_int k * pow2 j) = of_int k * pow2 j"
proof (cases "k = 0")
  case True
  then show ?thesis by (simp add: b64_def)
next
  case False
  define x :: rat where "x = of_int k * pow2 j"
  define m :: rat where "m = of_int \<bar>k\<bar>"
  define a where "a = ilog2 m"
  define e where "e = a + j - 52"
  define n where "n = nat (52 - a)"
  have k1: "1 \<le> m" using False by (simp add: m_def)
  then have k0: "0 < m" by linarith
  note kb = ilog2_bounds[OF k0, folded a_def]
  have a0: "0 \<le> a"
  proof -
    from k1 kb have "pow2 0 < pow2 (a + 1)" by (simp add: pow2_0)
    from pow2_less_cancel[OF this] show ?thesis by simp
  qed
  have a52: "a \<le> 52"
  proof -
    have "m < of_int (2 ^ 53)" unfolding m_def using assms by (simp only: of_int_less_iff)
    then have "m < pow2 53" by (simp add: pow2_53)
    with kb have "pow2 a < pow2 53" by linarith
    from pow2_less_cancel[OF this] show ?thesis by simp
  qed
  have x0: "x \<noteq> 0" using False pow2_pos[of j] by (simp add: x_def)
  have ax: "\<bar>x\<bar> = m * pow2 j"
    using pow2_pos[of j] by (simp add: x_def m_def abs_mult)
  have il: "ilog2 \<bar>x\<bar> = a + j"
  proof (rule ilog2_unique)
    have "pow2 a * pow2 j \<le> m * pow2 j"
      using kb pow2_pos[of j] by (simp add: mult_right_mono)
    then show "pow2 (a + j) \<le> \<bar>x\<bar>" by (simp only: ax pow2_add)
    have "m * pow2 j < pow2 (a + 1) * pow2 j"
      using kb pow2_pos[of j] by (simp add: mult_strict_right_mono)
    also have "\<dots> = pow2 (a + j + 1)"
      by (simp add: pow2_add)
    finally show "\<bar>x\<bar> < pow2 (a + j + 1)" by (simp only: ax)
  qed
  have pe: "0 < pow2 e" by (rule pow2_pos)
  have "pow2 (e + (52 - a)) = pow2 e * pow2 (52 - a)" by (rule pow2_add)
  moreover have "e + (52 - a) = j" by (simp add: e_def)
  moreover have "pow2 (52 - a) = 2 ^ n" using a52 by (simp add: pow2_def n_def)
  ultimately have pj: "pow2 j = pow2 e * 2 ^ n" by simp
  have xe: "x = of_int (k * 2 ^ n) * pow2 e"
    by (simp add: x_def pj)
  then have sc: "x / pow2 e = of_int (k * 2 ^ n)"
    using pe by simp
  have "b64 x = of_int (py_round (x / pow2 e)) * pow2 e"
    using x0 by (simp add: b64_def Let_def il e_def)
  also have "\<dots> = of_int (k * 2 ^ n) * pow2 e"
    by (simp only: sc py_round_of_int)
  also have "\<dots> = x" by (simp only: xe)
  finally show ?thesis by (simp only: x_def)
qed

lemma pow2_nat: "pow2 (int n) = 2 ^ n"
  by (simp add: pow2_def)

lemma b64_fixed_form:
  assumes "0 < x" and "b64 x = x"
  shows "\<exists>M. x = of_int M * pow2 (ilog2 x - 52) \<and> 2 ^ 52 \<le> M \<and> M \<le> 2 ^ 53"
  using b64_pos_form[OF assms(1)] assms(2) by metis

text \<open>What \<open>b64\<close> returns for a positive number is positive and a binary64 number.\<close>

lemma b64_pos: "0 < x \<Longrightarrow> 0 < b64 x"
proof -
  assume x: "0 < x"
  from b64_nonneg_bounds[of x] x have "x * (1 - 1 / 2 ^ 53) \<le> b64 x" by simp
  moreover from x have "0 < x * (1 - 1 / 2 ^ 53)" by simp
  ultimately show ?thesis by linarith
qed

lemma b64_idem_pos:
  assumes "0 < x"
  shows "b64 (b64 x) = b64 x"
proof -
  define e where "e = ilog2 x - 52"
  define M where "M = py_round (x / pow2 e)"
  from b64_pos_form[OF assms]
  have f: "b64 x = of_int M * pow2 e" and M: "2 ^ 52 \<le> M" "M \<le> 2 ^ 53"
    by (simp_all add: e_def M_def)
  show ?thesis
  proof (cases "M = 2 ^ 53")
    case True
    have "pow2 (e + 1) = pow2 e * 2" by (simp only: pow2_add pow2_1)
    with True f have g: "b64 x = of_int (2 ^ 52) * pow2 (e + 1)" by simp
    have "\<bar>2 ^ 52 :: int\<bar> < 2 ^ 53" by simp
    from b64_representable[OF this, of "e + 1"] g show ?thesis by simp
  next
    case False
    with M have "\<bar>M\<bar> < 2 ^ 53" by simp
    from b64_representable[OF this, of e] f show ?thesis by simp
  qed
qed

subsection \<open>Order reuse\<close>

lemma price_change_bounds:
  assumes "0 < p"
  shows "\<bar>new_price - p\<bar> / p * (1 - 1 / 2 ^ 53) ^ 2 \<le> b64 (\<bar>b64 (new_price - p)\<bar> / p)
       \<and> b64 (\<bar>b64 (new_price - p)\<bar> / p) \<le> \<bar>new_price - p\<bar> / p * (1 + 1 / 2 ^ 53) ^ 2"
proof -
  let ?d = "\<bar>new_price - p\<bar>" and ?D = "\<bar>b64 (new_price - p)\<bar>"
  let ?l = "(1 - 1 / 2 ^ 53) :: rat" and ?u = "(1 + 1 / 2 ^ 53) :: rat"
  have l: "0 \<le> ?l" and u: "0 \<le> ?u" by simp_all
  from b64_abs_bounds[of "new_price - p"] have D: "?d * ?l \<le> ?D" "?D \<le> ?d * ?u" by simp_all
  from assms have z: "0 \<le> ?D / p" by simp
  from b64_nonneg_bounds[OF z] have q: "?D / p * ?l \<le> b64 (?D / p)" "b64 (?D / p) \<le> ?D / p * ?u"
    by simp_all
  from D(1) have "?d * ?l / p \<le> ?D / p" by (rule divide_right_mono) (use assms in simp)
  then have "?d * ?l / p * ?l \<le> ?D / p * ?l" using l by (rule mult_right_mono)
  with q(1) have lo: "?d * ?l / p * ?l \<le> b64 (?D / p)" by linarith
  from D(2) have "?D / p \<le> ?d * ?u / p" by (rule divide_right_mono) (use assms in simp)
  then have "?D / p * ?u \<le> ?d * ?u / p * ?u" using u by (rule mult_right_mono)
  with q(2) have hi: "b64 (?D / p) \<le> ?d * ?u / p * ?u" by linarith
  have "?d * ?l / p * ?l = ?d / p * ?l ^ 2" and "?d * ?u / p * ?u = ?d / p * ?u ^ 2"
    by (simp_all add: power2_eq_square)
  with lo hi show ?thesis by simp
qed

lemma quantity_gap_seen:
  assumes "\<bar>q - new_quantity\<bar> \<ge> 2 / 10 ^ 12"
  shows "\<bar>b64 (q - new_quantity)\<bar> > b64 (1 / 10 ^ 12)"
proof -
  let ?l = "(1 - 1 / 2 ^ 53) :: rat" and ?u = "(1 + 1 / 2 ^ 53) :: rat"
  from b64_abs_bounds[of "q - new_quantity"] have "\<bar>q - new_quantity\<bar> * ?l \<le> \<bar>b64 (q - new_quantity)\<bar>"
    by simp
  moreover from assms have "2 / 10 ^ 12 * ?l \<le> \<bar>q - new_quantity\<bar> * ?l"
    by (intro mult_right_mono) simp_all
  moreover from b64_nonneg_bounds[of "1 / 10 ^ 12"] have "b64 (1 / 10 ^ 12) \<le> 1 / 10 ^ 12 * ?u"
    by simp
  moreover have "(1 / 10 ^ 12 * ?u :: rat) < 2 / 10 ^ 12 * ?l" by simp
  ultimately show ?thesis by linarith
qed

text \<open>
  Two binary64 prices whose relative distance is near 0.1 per cent: their difference is
  a float, so the only rounding is that of the quotient, and the quotient is a ratio of
  integers \<open>k / 2 M\<close> with \<open>M \<le> 2 ^ 53\<close>, which cannot lie as close below \<open>1 / 1000\<close> as
  rounding up to the float 0.001 would need.
\<close>

lemma window_exact:
  assumes p: "0 < p" "b64 p = p" and n: "b64 new = new"
    and w: "\<bar>new - p\<bar> / p < 1002 / 10 ^ 6"
  shows "\<exists>k M. \<bar>k\<bar> < 2 ^ 53 \<and> 0 < M \<and> M \<le> 2 ^ 53
           \<and> new - p = of_int k * pow2 (ilog2 p - 53)
           \<and> \<bar>new - p\<bar> / p = of_int (\<bar>k\<bar>) / of_int (2 * M)"
proof -
  define e where "e = ilog2 p - 52"
  define f where "f = ilog2 new - 52"
  define g where "g = pow2 (e - 1)"
  have g0: "0 < g" unfolding g_def by (rule pow2_pos)
  from w p(1) have w': "\<bar>new - p\<bar> < 1002 / 10 ^ 6 * p"
    by (simp add: pos_divide_less_eq)
  moreover have "1002 / 10 ^ 6 * p < p / 2" using p(1) by simp
  ultimately have "\<bar>new - p\<bar> < p / 2" by linarith
  then have np: "p / 2 < new" "0 < new" using p(1) by linarith+
  from b64_fixed_form[OF p] obtain M where M: "p = of_int M * pow2 e" "2 ^ 52 \<le> M" "M \<le> 2 ^ 53"
    unfolding e_def by blast
  from b64_fixed_form[OF np(2) n] obtain N where N: "new = of_int N * pow2 f"
    unfolding f_def by blast
  have fe: "e - 1 \<le> f"
  proof -
    from ilog2_bounds[OF p(1)] ilog2_bounds[OF np(2)] np(1)
    have "pow2 (ilog2 p) < 2 * pow2 (ilog2 new + 1)" by linarith
    also have "\<dots> = pow2 (ilog2 new + 1 + 1)" by (simp only: pow2_add pow2_1)
    finally have "ilog2 p < ilog2 new + 1 + 1" by (rule pow2_less_cancel)
    then show ?thesis by (simp add: e_def f_def)
  qed
  define t where "t = nat (f - (e - 1))"
  have "pow2 ((e - 1) + int t) = pow2 (e - 1) * pow2 (int t)" by (rule pow2_add)
  moreover have "(e - 1) + int t = f" using fe by (simp add: t_def)
  ultimately have pf: "pow2 f = g * 2 ^ t" by (simp add: g_def pow2_nat)
  have "pow2 ((e - 1) + 1) = pow2 (e - 1) * pow2 1" by (rule pow2_add)
  then have pe: "pow2 e = g * 2" by (simp add: g_def pow2_1)
  define k where "k = N * 2 ^ t - 2 * M"
  have d: "new - p = of_int k * g"
    by (simp add: N M(1) pf pe k_def algebra_simps)
  have pg: "p = of_int (2 * M) * g"
    by (simp add: M(1) pe)
  have M0: "0 < M"
  proof -
    have "(0::int) < 2 ^ 52" by simp
    from this M(2) show ?thesis by (rule less_le_trans)
  qed
  have a1: "\<bar>new - p\<bar> = of_int \<bar>k\<bar> * g"
    unfolding d using g0 by (simp add: abs_mult)
  have "\<bar>new - p\<bar> / p = \<bar>new - p\<bar> / (of_int (2 * M) * g)"
    using pg by simp
  also have "\<dots> = (of_int \<bar>k\<bar> * g) / (of_int (2 * M) * g)"
    by (simp only: a1)
  also have "\<dots> = of_int \<bar>k\<bar> / of_int (2 * M)"
    using g0 by simp
  finally have r: "\<bar>new - p\<bar> / p = of_int \<bar>k\<bar> / of_int (2 * M)" .
  have kb: "\<bar>k\<bar> < 2 ^ 53"
  proof -
    from w r have "(of_int \<bar>k\<bar> :: rat) / of_int (2 * M) < 1002 / 10 ^ 6" by simp
    then have "(of_int \<bar>k\<bar> :: rat) < 1002 / 10 ^ 6 * of_int (2 * M)"
      using M0 by (simp add: pos_divide_less_eq)
    moreover have "(of_int (2 * M) :: rat) \<le> of_int (2 * 2 ^ 53)"
      using M(3) by (simp only: of_int_le_iff)
    ultimately have "(of_int \<bar>k\<bar> :: rat) < of_int (2 ^ 53)" by simp
    then show ?thesis by (simp only: of_int_less_iff)
  qed
  have "e - 1 = ilog2 p - 53" by (simp add: e_def)
  with kb M0 M(3) d r show ?thesis unfolding g_def by auto
qed

lemma reuse_exact_default:
  assumes p: "0 < p" "b64 p = p" and n: "b64 new = new"
  shows "b64 (\<bar>b64 (new - p)\<bar> / p) < b64 (1 / 1000) \<longleftrightarrow> \<bar>new - p\<bar> / p < 1 / 1000"
proof -
  let ?r = "\<bar>new - p\<bar> / p"
  let ?q = "b64 (\<bar>b64 (new - p)\<bar> / p)"
  have T: "(1 / 1000 :: rat) < b64 (1 / 1000)
      \<and> b64 (1 / 1000) < 1001 / 10 ^ 6
      \<and> b64 (1 / 1000 - 1 / (1000 * 2 ^ 53)) < b64 (1 / 1000)"
    by code_simp
  note B = price_change_bounds[OF p(1), of new]
  consider (hi) "1002 / 10 ^ 6 \<le> ?r" | (lo) "?r \<le> 998 / 10 ^ 6"
    | (mid) "998 / 10 ^ 6 < ?r" "?r < 1002 / 10 ^ 6"
    by linarith
  then show ?thesis
  proof cases
    case hi
    have "(1001 / 10 ^ 6 :: rat) \<le> 1002 / 10 ^ 6 * (1 - 1 / 2 ^ 53) ^ 2"
      by (simp add: power2_eq_square)
    also have "\<dots> \<le> ?r * (1 - 1 / 2 ^ 53) ^ 2"
      using hi by (intro mult_right_mono) simp_all
    finally have "\<not> ?q < b64 (1 / 1000)" using B T by linarith
    moreover have "(1 / 1000 :: rat) < 1002 / 10 ^ 6" by simp
    with hi have "\<not> ?r < 1 / 1000" by linarith
    ultimately show ?thesis by simp
  next
    case lo
    have "?r * (1 + 1 / 2 ^ 53) ^ 2 \<le> 998 / 10 ^ 6 * (1 + 1 / 2 ^ 53) ^ 2"
      using lo by (intro mult_right_mono) simp_all
    also have "\<dots> < (1 / 1000 :: rat)" by (simp add: power2_eq_square)
    finally have "?q < b64 (1 / 1000)" using B T by linarith
    moreover have "(998 / 10 ^ 6 :: rat) < 1 / 1000" by simp
    with lo have "?r < 1 / 1000" by linarith
    ultimately show ?thesis by simp
  next
    case mid
    from window_exact[OF p n mid(2)] obtain k M where
      k: "\<bar>k\<bar> < 2 ^ 53" and M: "0 < M" "M \<le> 2 ^ 53"
      and d: "new - p = of_int k * pow2 (ilog2 p - 53)"
      and r: "?r = of_int (\<bar>k\<bar>) / of_int (2 * M)"
      by blast
    from b64_representable[OF k, of "ilog2 p - 53"] d have "b64 (new - p) = new - p" by simp
    then have q: "?q = b64 ?r" by simp
    have "(0::rat) < 998 / 10 ^ 6" by simp
    from this mid(1) have r0: "0 < ?r" by (rule less_trans)
    show ?thesis
    proof (cases "?r < 1 / 1000")
      case True
      with r M(1) have "(of_int \<bar>k\<bar> :: rat) * 1000 < of_int (2 * M)"
        by (simp add: pos_divide_less_eq)
      then have "(of_int (\<bar>k\<bar> * 1000) :: rat) < of_int (2 * M)" by simp
      then have "\<bar>k\<bar> * 1000 < 2 * M" by (simp only: of_int_less_iff)
      then have "\<bar>k\<bar> * 500 \<le> M - 1" by linarith
      then have "(of_int (\<bar>k\<bar> * 500) :: rat) \<le> of_int (M - 1)" by (simp only: of_int_le_iff)
      then have "(of_int \<bar>k\<bar> :: rat) \<le> (of_int M - 1) / 500" by simp
      then have "(of_int \<bar>k\<bar> :: rat) / of_int (2 * M) \<le> (of_int M - 1) / 500 / of_int (2 * M)"
        using M(1) by (intro divide_right_mono) simp_all
      also have "\<dots> = 1 / 1000 - 1 / (1000 * of_int M)"
        using M(1) by (simp add: field_simps)
      also have "\<dots> \<le> 1 / 1000 - 1 / (1000 * 2 ^ 53)"
      proof -
        have "(of_int M :: rat) \<le> of_int (2 ^ 53)" using M(2) by (simp only: of_int_le_iff)
        then have "(of_int M :: rat) \<le> 2 ^ 53" by simp
        moreover have "(0::rat) < of_int M" using M(1) by simp
        ultimately have "1 / (1000 * 2 ^ 53) \<le> 1 / (1000 * (of_int M :: rat))"
          by (intro divide_left_mono) simp_all
        then show ?thesis by linarith
      qed
      finally have "?r \<le> 1 / 1000 - 1 / (1000 * 2 ^ 53)" by (simp only: r)
      from b64_mono_pos[OF r0 this] T q True show ?thesis by simp
    next
      case False
      then have "1 / 1000 \<le> ?r" by simp
      from b64_mono_pos[OF _ this] q False show ?thesis by simp
    qed
  qed
qed

text \<open>
  C6. \<^verbatim>\<open>should_reuse_order\<close> returns false whenever there is no active order (no order id or
  no recorded price), whenever the side differs, and whenever the quantity differs from
  the recorded one by more than \<open>10\<^sup>-\<^sup>1\<^sup>2\<close> (as the code computes the difference; a difference
  of \<open>2 \<times> 10\<^sup>-\<^sup>1\<^sup>2\<close> or more always counts). With an active order at a price \<open>p \<noteq> 0\<close>, the
  same side and a matching quantity it returns true exactly when the relative price change,
  the float \<^verbatim>\<open>abs(new_price - p) / p\<close>, is strictly below the threshold; at the boundary,
  where that float equals the threshold, it returns false. The float differs from the
  exact ratio \<open>\<bar>new_price - p\<bar> / p\<close> by two roundings: for \<open>p > 0\<close> the result is true when
  the exact ratio times \<open>(1 + 2\<^sup>-\<^sup>5\<^sup>3)\<^sup>2\<close> is below the threshold and false when the exact
  ratio times \<open>(1 - 2\<^sup>-\<^sup>5\<^sup>3)\<^sup>2\<close> is at least the threshold. With the default threshold, the
  float 0.001, and prices that are binary64 numbers, as all prices of the program are, the
  roundings never change the outcome: the result is true exactly when the exact ratio is
  strictly below 0.1 per cent, and false when it is 0.1 per cent or more.
\<close>

theorem C6_should_reuse_order:
  "(active_order_id state = JNull \<or> last_order_price state = None \<longrightarrow>
      should_reuse_order state new_price new_side new_quantity threshold = Inr False)
   \<and> (last_order_side state \<noteq> Some new_side \<longrightarrow>
      should_reuse_order state new_price new_side new_quantity threshold = Inr False)
   \<and> (last_order_quantity state = Some q
        \<and> (\<bar>b64 (q - new_quantity)\<bar> > b64 (1 / 10 ^ 12) \<or> \<bar>q - new_quantity\<bar> \<ge> 2 / 10 ^ 12) \<longrightarrow>
      should_reuse_order state new_price new_side new_quantity threshold = Inr False)
   \<and> (active_order_id state \<noteq> JNull \<and> last_order_price state = Some p \<and> p \<noteq> 0
        \<and> last_order_side state = Some new_side
        \<and> last_order_quantity state = Some q'
        \<and> \<bar>b64 (q' - new_quantity)\<bar> \<le> b64 (1 / 10 ^ 12) \<longrightarrow>
      should_reuse_order state new_price new_side new_quantity threshold
        = Inr (b64 (\<bar>b64 (new_price - p)\<bar> / p) < threshold)
      \<and> (b64 (\<bar>b64 (new_price - p)\<bar> / p) = threshold \<longrightarrow>
           should_reuse_order state new_price new_side new_quantity threshold = Inr False)
      \<and> (0 < p \<and> \<bar>new_price - p\<bar> / p * (1 + 1 / 2 ^ 53) ^ 2 < threshold \<longrightarrow>
           should_reuse_order state new_price new_side new_quantity threshold = Inr True)
      \<and> (0 < p \<and> \<bar>new_price - p\<bar> / p * (1 - 1 / 2 ^ 53) ^ 2 \<ge> threshold \<longrightarrow>
           should_reuse_order state new_price new_side new_quantity threshold = Inr False)
      \<and> (0 < p \<and> b64 p = p \<and> b64 new_price = new_price \<longrightarrow>
           should_reuse_order state new_price new_side new_quantity
               DEFAULT_PRICE_CHANGE_THRESHOLD
             = Inr (\<bar>new_price - p\<bar> / p < 1 / 1000)))"
proof -
  let ?r = "should_reuse_order state new_price new_side new_quantity threshold"
  have a: "active_order_id state = JNull \<or> last_order_price state = None \<longrightarrow> ?r = Inr False"
    by (auto simp: should_reuse_order_def)
  have b: "last_order_side state \<noteq> Some new_side \<longrightarrow> ?r = Inr False"
    by (auto simp: should_reuse_order_def)
  have c: "last_order_quantity state = Some q
        \<and> (\<bar>b64 (q - new_quantity)\<bar> > b64 (1 / 10 ^ 12) \<or> \<bar>q - new_quantity\<bar> \<ge> 2 / 10 ^ 12)
      \<longrightarrow> ?r = Inr False"
    using quantity_gap_seen[of q new_quantity] by (auto simp: should_reuse_order_def)
  have d: "should_reuse_order state new_price new_side new_quantity thr
         = Inr (b64 (\<bar>b64 (new_price - p)\<bar> / p) < thr)"
    if "active_order_id state \<noteq> JNull" "last_order_price state = Some p" "p \<noteq> 0"
       "last_order_side state = Some new_side" "last_order_quantity state = Some q'"
       "\<bar>b64 (q' - new_quantity)\<bar> \<le> b64 (1 / 10 ^ 12)" for thr
    using that by (simp add: should_reuse_order_def Let_def)
  have e: "0 < p \<and> \<bar>new_price - p\<bar> / p * (1 + 1 / 2 ^ 53) ^ 2 < threshold
      \<longrightarrow> b64 (\<bar>b64 (new_price - p)\<bar> / p) < threshold"
    using price_change_bounds[of p new_price] by auto
  have f: "0 < p \<and> \<bar>new_price - p\<bar> / p * (1 - 1 / 2 ^ 53) ^ 2 \<ge> threshold
      \<longrightarrow> \<not> b64 (\<bar>b64 (new_price - p)\<bar> / p) < threshold"
    using price_change_bounds[of p new_price] by auto
  have g: "0 < p \<and> b64 p = p \<and> b64 new_price = new_price
      \<longrightarrow> (b64 (\<bar>b64 (new_price - p)\<bar> / p) < DEFAULT_PRICE_CHANGE_THRESHOLD
             \<longleftrightarrow> \<bar>new_price - p\<bar> / p < 1 / 1000)"
    using reuse_exact_default[of p new_price]
    by (simp add: DEFAULT_PRICE_CHANGE_THRESHOLD_def)
  from a b c d[of threshold] d[of DEFAULT_PRICE_CHANGE_THRESHOLD] e f g show ?thesis by auto
qed

text \<open>
  With order 7 working, a bid of 2 at 100: no reuse for the other side or another
  quantity, reuse at the price 100.0625. At the recorded price 1000 and the new price 1001
  the ratio is 0.1 per cent and its float is the default threshold itself: no reuse. The
  price that \<^verbatim>\<open>float\<close> reads from 100.10 lies below 100.1, so against 100 its ratio is
  below 0.1 per cent and the order is reused.
\<close>

theorem C6_witness:
  "should_reuse_order (init_state False) 100 Bid 2 DEFAULT_PRICE_CHANGE_THRESHOLD = Inr False
   \<and> should_reuse_order working_state 100 Ask 2 DEFAULT_PRICE_CHANGE_THRESHOLD = Inr False
   \<and> should_reuse_order working_state 100 Bid 3 DEFAULT_PRICE_CHANGE_THRESHOLD = Inr False
   \<and> should_reuse_order working_state (1601 / 16) Bid 2 DEFAULT_PRICE_CHANGE_THRESHOLD = Inr True
   \<and> b64 (\<bar>b64 (1001 - 1000)\<bar> / 1000) = DEFAULT_PRICE_CHANGE_THRESHOLD
   \<and> should_reuse_order (working_state\<lparr>last_order_price := Some 1000\<rparr>) 1001 Bid 2
        DEFAULT_PRICE_CHANGE_THRESHOLD = Inr False
   \<and> \<bar>b64 (1001 / 10) - 100\<bar> / 100 < 1 / 1000
   \<and> should_reuse_order working_state (b64 (1001 / 10)) Bid 2 DEFAULT_PRICE_CHANGE_THRESHOLD
       = Inr True
   \<and> should_reuse_order working_state 101 Bid 2 DEFAULT_PRICE_CHANGE_THRESHOLD = Inr False"
proof -
  let ?k = "working_state\<lparr>last_order_price := Some 1000\<rparr>"
  let ?t = DEFAULT_PRICE_CHANGE_THRESHOLD
  have s: "active_order_id (init_state False) = JNull
      \<and> active_order_id working_state \<noteq> JNull \<and> active_order_id ?k \<noteq> JNull
      \<and> last_order_price working_state = Some 100 \<and> last_order_price ?k = Some 1000
      \<and> last_order_side working_state = Some Bid \<and> last_order_side ?k = Some Bid
      \<and> last_order_quantity working_state = Some 2 \<and> last_order_quantity ?k = Some 2"
    by (simp add: init_state_def working_state_def quoted_state_def)
  have v: "\<bar>b64 (2 - 3)\<bar> > b64 (1 / 10 ^ 12) \<and> \<bar>b64 (2 - 2)\<bar> \<le> b64 (1 / 10 ^ 12)
      \<and> b64 (\<bar>b64 (1601 / 16 - 100)\<bar> / 100) < ?t
      \<and> 0 < (100::rat) \<and> \<bar>1601 / 16 - 100 :: rat\<bar> / 100 * (1 + 1 / 2 ^ 53) ^ 2 < ?t
      \<and> b64 (\<bar>b64 (1001 - 1000)\<bar> / 1000) = ?t
      \<and> b64 (\<bar>b64 (b64 (1001 / 10) - 100)\<bar> / 100) < ?t
      \<and> \<bar>101 - 100 :: rat\<bar> / 100 * (1 - 1 / 2 ^ 53) ^ 2 \<ge> ?t"
    by code_simp
  have x: "b64 100 = 100 \<and> b64 (b64 (1001 / 10)) = b64 (1001 / 10)
      \<and> \<bar>b64 (1001 / 10) - 100\<bar> / 100 < 1 / 1000"
    by code_simp
  have w1: "should_reuse_order (init_state False) 100 Bid 2 ?t = Inr False"
    using C6_should_reuse_order
          [where state = "init_state False" and new_price = 100 and new_side = Bid
             and new_quantity = 2 and threshold = ?t and q = 2 and p = 100 and q' = 2] s
    by simp
  have w2: "should_reuse_order working_state 100 Ask 2 ?t = Inr False"
    using C6_should_reuse_order
          [where state = working_state and new_price = 100 and new_side = Ask
             and new_quantity = 2 and threshold = ?t and q = 2 and p = 100 and q' = 2] s
    by simp
  have w3: "should_reuse_order working_state 100 Bid 3 ?t = Inr False"
    using C6_should_reuse_order
          [where state = working_state and new_price = 100 and new_side = Bid
             and new_quantity = 3 and threshold = ?t and q = 2 and p = 100 and q' = 2] s v
    by simp
  have w4: "should_reuse_order working_state (1601 / 16) Bid 2 ?t = Inr True"
    using C6_should_reuse_order
          [where state = working_state and new_price = "1601 / 16" and new_side = Bid
             and new_quantity = 2 and threshold = ?t and q = 2 and p = 100 and q' = 2] s v
    by simp
  have w5: "should_reuse_order ?k 1001 Bid 2 ?t = Inr False"
    using C6_should_reuse_order
          [where state = ?k and new_price = 1001 and new_side = Bid
             and new_quantity = 2 and threshold = ?t and q = 2 and p = 1000 and q' = 2] s v
    by simp
  have h: "active_order_id working_state \<noteq> JNull \<and> last_order_price working_state = Some 100
        \<and> (100::rat) \<noteq> 0 \<and> last_order_side working_state = Some Bid
        \<and> last_order_quantity working_state = Some 2
        \<and> \<bar>b64 (2 - 2)\<bar> \<le> b64 (1 / 10 ^ 12)"
    using s v by simp
  have g6: "0 < (100::rat) \<and> b64 100 = 100 \<and> b64 (b64 (1001 / 10)) = b64 (1001 / 10)"
    using x by simp
  from C6_should_reuse_order
          [where state = working_state and new_price = "b64 (1001 / 10)" and new_side = Bid
             and new_quantity = 2 and threshold = ?t and q = 2 and p = 100 and q' = 2] h g6
  have "should_reuse_order working_state (b64 (1001 / 10)) Bid 2 ?t
      = Inr (\<bar>b64 (1001 / 10) - 100\<bar> / 100 < 1 / 1000)"
    by blast
  with x have w6: "should_reuse_order working_state (b64 (1001 / 10)) Bid 2 ?t = Inr True"
    by simp
  have g7: "0 < (100::rat) \<and> \<bar>101 - 100 :: rat\<bar> / 100 * (1 - 1 / 2 ^ 53) ^ 2 \<ge> ?t"
    using v by simp
  from C6_should_reuse_order
          [where state = working_state and new_price = 101 and new_side = Bid
             and new_quantity = 2 and threshold = ?t and q = 2 and p = 100 and q' = 2] h g7
  have w7: "should_reuse_order working_state 101 Bid 2 ?t = Inr False"
    by blast
  from w1 w2 w3 w4 w5 w6 w7 v x show ?thesis by simp
qed

subsection \<open>Posture after a fill\<close>

text \<open>
  The claim C1 as stated fails: an opening fill of 0.125 at a mid price of 100 leaves a
  notional of 12.5, below the threshold of 15, and the posture is flipped to closing all
  the same.
\<close>

theorem C1_counterexample:
  "mode quoted_state = opening_mode False
   \<and> mid_price quoted_state = Some 100
   \<and> position_size (apply_fill False (1 / 8) quoted_state) = 1 / 8
   \<and> \<bar>position_size (apply_fill False (1 / 8) quoted_state) * 100\<bar> < POSITION_THRESHOLD_USD
   \<and> mode (apply_fill False (1 / 8) quoted_state) = closing_mode False"
  by code_simp

lemma apply_fill_opening:
  "mode state = opening_mode fm \<Longrightarrow> mode (apply_fill fm filled_qty state) = closing_mode fm"
  by (simp add: apply_fill_def clear_order_tracking_def)

lemma apply_fill_position:
  "position_size (apply_fill fm filled_qty state)
     = b64 (if mode state = Bid then position_size state + filled_qty
            else position_size state - filled_qty)"
  by (cases fm; cases "mode state")
     (simp_all add: apply_fill_def opening_mode_def closing_mode_def clear_order_tracking_def
        Let_def)

lemma apply_fill_closing:
  assumes "mode state \<noteq> opening_mode fm" and "mid_price state = Some m" and "m \<noteq> 0"
  shows "mode (apply_fill fm filled_qty state)
       = (if \<bar>position_size (apply_fill fm filled_qty state)\<bar> < b64 (POSITION_THRESHOLD_USD / m)
          then opening_mode fm else closing_mode fm)"
  using assms
  by (cases fm; cases "mode state")
     (simp_all add: apply_fill_def opening_mode_def closing_mode_def clear_order_tracking_def
        Let_def)

lemma threshold_coins_bounds:
  assumes "0 < m"
  shows "POSITION_THRESHOLD_USD * (1 - 1 / 2 ^ 53) / m \<le> b64 (POSITION_THRESHOLD_USD / m)
       \<and> b64 (POSITION_THRESHOLD_USD / m) \<le> POSITION_THRESHOLD_USD * (1 + 1 / 2 ^ 53) / m"
proof -
  from assms have "0 \<le> POSITION_THRESHOLD_USD / m" by (simp add: POSITION_THRESHOLD_USD_def)
  from b64_nonneg_bounds[OF this] show ?thesis by simp
qed

text \<open>
  C1, amended. A fill applied in the opening posture always flips the posture to closing,
  whatever the resulting notional. A fill applied in the closing posture, with a positive
  mid price \<open>m\<close>, returns the posture to opening exactly when the new position, in coins,
  is strictly below the threshold in coins, the float quotient \<^verbatim>\<open>15.0 / mid_price\<close>, and
  leaves it closing otherwise. In terms of the notional \<open>\<bar>position_size * m\<bar>\<close>: the posture
  returns to opening when the notional is below \<open>15 (1 - 2\<^sup>-\<^sup>5\<^sup>3)\<close> and stays closing when it
  is at least \<open>15 (1 + 2\<^sup>-\<^sup>5\<^sup>3)\<close>; in between, the rounding of the quotient decides. The new
  position is the float sum of the position and the filled quantity after a fill in bid
  mode, their float difference after a fill in ask mode.
\<close>

theorem C1_fill_posture:
  "(mode state = opening_mode fm \<longrightarrow>
      mode (apply_fill fm filled_qty state) = closing_mode fm)
   \<and> (mode state \<noteq> opening_mode fm \<and> mid_price state = Some m \<and> m > 0 \<longrightarrow>
        (mode (apply_fill fm filled_qty state) = opening_mode fm
           \<longleftrightarrow> \<bar>position_size (apply_fill fm filled_qty state)\<bar>
                 < b64 (POSITION_THRESHOLD_USD / m))
        \<and> (mode (apply_fill fm filled_qty state) \<noteq> opening_mode fm
           \<longrightarrow> mode (apply_fill fm filled_qty state) = closing_mode fm)
        \<and> (\<bar>position_size (apply_fill fm filled_qty state) * m\<bar>
              < POSITION_THRESHOLD_USD * (1 - 1 / 2 ^ 53)
           \<longrightarrow> mode (apply_fill fm filled_qty state) = opening_mode fm)
        \<and> (\<bar>position_size (apply_fill fm filled_qty state) * m\<bar>
              \<ge> POSITION_THRESHOLD_USD * (1 + 1 / 2 ^ 53)
           \<longrightarrow> mode (apply_fill fm filled_qty state) = closing_mode fm))
   \<and> position_size (apply_fill fm filled_qty state)
       = b64 (if mode state = Bid then position_size state + filled_qty
              else position_size state - filled_qty)"
proof -
  let ?s = "apply_fill fm filled_qty state"
  have oc: "opening_mode fm \<noteq> closing_mode fm"
    by (simp add: opening_mode_def closing_mode_def)
  have b: "mode ?s = opening_mode fm \<longleftrightarrow> \<bar>position_size ?s\<bar> < b64 (POSITION_THRESHOLD_USD / m)"
    and c: "mode ?s \<noteq> opening_mode fm \<longrightarrow> mode ?s = closing_mode fm"
    and d: "\<bar>position_size ?s * m\<bar> < POSITION_THRESHOLD_USD * (1 - 1 / 2 ^ 53)
           \<longrightarrow> mode ?s = opening_mode fm"
    and e: "\<bar>position_size ?s * m\<bar> \<ge> POSITION_THRESHOLD_USD * (1 + 1 / 2 ^ 53)
           \<longrightarrow> mode ?s = closing_mode fm"
    if h: "mode state \<noteq> opening_mode fm" "mid_price state = Some m" "m > 0"
  proof -
    from h have m0: "m \<noteq> 0" by simp
    note k = apply_fill_closing[OF h(1) h(2) m0, of filled_qty]
    note t = threshold_coins_bounds[OF h(3)]
    show "mode ?s = opening_mode fm \<longleftrightarrow> \<bar>position_size ?s\<bar> < b64 (POSITION_THRESHOLD_USD / m)"
      using k oc by (simp split: if_splits)
    show "mode ?s \<noteq> opening_mode fm \<longrightarrow> mode ?s = closing_mode fm"
      using k by (simp split: if_splits)
    have n: "\<bar>position_size ?s * m\<bar> = \<bar>position_size ?s\<bar> * m"
      using h(3) by (simp add: abs_mult)
    show "\<bar>position_size ?s * m\<bar> < POSITION_THRESHOLD_USD * (1 - 1 / 2 ^ 53)
           \<longrightarrow> mode ?s = opening_mode fm"
    proof
      assume "\<bar>position_size ?s * m\<bar> < POSITION_THRESHOLD_USD * (1 - 1 / 2 ^ 53)"
      with n h(3) have "\<bar>position_size ?s\<bar> < POSITION_THRESHOLD_USD * (1 - 1 / 2 ^ 53) / m"
        by (simp add: pos_less_divide_eq)
      with t have "\<bar>position_size ?s\<bar> < b64 (POSITION_THRESHOLD_USD / m)" by linarith
      with k show "mode ?s = opening_mode fm" by simp
    qed
    show "\<bar>position_size ?s * m\<bar> \<ge> POSITION_THRESHOLD_USD * (1 + 1 / 2 ^ 53)
           \<longrightarrow> mode ?s = closing_mode fm"
    proof
      assume "\<bar>position_size ?s * m\<bar> \<ge> POSITION_THRESHOLD_USD * (1 + 1 / 2 ^ 53)"
      with n h(3) have "\<bar>position_size ?s\<bar> \<ge> POSITION_THRESHOLD_USD * (1 + 1 / 2 ^ 53) / m"
        by (simp add: pos_divide_le_eq)
      with t have "\<not> \<bar>position_size ?s\<bar> < b64 (POSITION_THRESHOLD_USD / m)" by linarith
      with k show "mode ?s = closing_mode fm" by simp
    qed
  qed
  from apply_fill_opening[of state fm filled_qty] b c d e apply_fill_position[of fm filled_qty state]
  show ?thesis by blast
qed

text \<open>
  An opening fill of 1.5 and closing fills of 1.5 and of 1 on the position of 1.5, at a
  mid price of 100. The last lines are the threshold itself: a closing fill of 0.15 on the
  position 0.3 leaves the float 0.15, which is not below the float \<^verbatim>\<open>15.0 / 100.0\<close>, so the
  posture stays closing although that position times 100 is below 15.
\<close>

theorem C1_witness:
  "mode (apply_fill False (3 / 2) quoted_state) = Ask
   \<and> position_size (apply_fill False (3 / 2) quoted_state) = 3 / 2
   \<and> mode (apply_fill False (3 / 2) (quoted_state\<lparr>mode := Ask, position_size := 3 / 2\<rparr>)) = Bid
   \<and> mode (apply_fill False 1 (quoted_state\<lparr>mode := Ask, position_size := 3 / 2\<rparr>)) = Ask
   \<and> position_size (apply_fill False (b64 (15 / 100))
        (quoted_state\<lparr>mode := Ask, position_size := b64 (3 / 10)\<rparr>)) = b64 (15 / 100)
   \<and> b64 (15 / 100) * 100 < POSITION_THRESHOLD_USD
   \<and> mode (apply_fill False (b64 (15 / 100))
        (quoted_state\<lparr>mode := Ask, position_size := b64 (3 / 10)\<rparr>)) = Ask"
proof -
  let ?c = "quoted_state\<lparr>mode := Ask, position_size := 3 / 2\<rparr>"
  let ?d = "quoted_state\<lparr>mode := Ask, position_size := b64 (3 / 10)\<rparr>"
  have m: "mode quoted_state = opening_mode False \<and> mode ?c \<noteq> opening_mode False
      \<and> mode ?d \<noteq> opening_mode False \<and> mid_price ?c = Some 100 \<and> mid_price ?d = Some 100
      \<and> mode quoted_state = Bid \<and> mode ?c = Ask \<and> mode ?d = Ask
      \<and> position_size quoted_state = 0 \<and> position_size ?c = 3 / 2
      \<and> position_size ?d = b64 (3 / 10)
      \<and> opening_mode False = Bid \<and> closing_mode False = Ask"
    by (simp add: quoted_state_def init_state_def opening_mode_def closing_mode_def)
  have v: "b64 (0 + 3 / 2) = 3 / 2 \<and> b64 (3 / 2 - 3 / 2) = 0 \<and> b64 (3 / 2 - 1) = 1 / 2
      \<and> b64 (b64 (3 / 10) - b64 (15 / 100)) = b64 (15 / 100)
      \<and> b64 (POSITION_THRESHOLD_USD / 100) = b64 (15 / 100)
      \<and> b64 (15 / 100) * 100 < POSITION_THRESHOLD_USD
      \<and> \<bar>0 * 100 :: rat\<bar> < POSITION_THRESHOLD_USD * (1 - 1 / 2 ^ 53)
      \<and> \<bar>1 / 2 * 100 :: rat\<bar> \<ge> POSITION_THRESHOLD_USD * (1 + 1 / 2 ^ 53)"
    by code_simp
  from C1_fill_posture [where fm = False and state = quoted_state and filled_qty = "3 / 2"
                           and m = 100]
       C1_fill_posture [where fm = False and filled_qty = "3 / 2" and m = 100 and state = ?c]
       C1_fill_posture [where fm = False and filled_qty = 1 and m = 100 and state = ?c]
       C1_fill_posture [where fm = False and filled_qty = "b64 (15 / 100)" and m = 100
                           and state = ?d]
       m v
  show ?thesis by simp
qed

subsection \<open>What the account feed writes\<close>

text \<open>
  Each branch of the message handler leaves the fields of the working order alone; the
  \<^verbatim>\<open>account_orders\<close> branch changes nothing but the queue, to which it appends entries of
  the shape \<open>queued_by_feed\<close>.
\<close>

lemma account_info_frame:
  "handle_account_info pf now data s = (s', lg, x) \<Longrightarrow>
     order_fields s' = order_fields s \<and> order_updates s' = order_updates s
     \<and> mode s' = mode s \<and> position_size s' = position_size s"
  by (auto simp: handle_account_info_def order_fields_def split: sum.splits if_splits)

lemma position_body_frame:
  "position_body pf symbol p s = Inr (s', lg, hit) \<Longrightarrow>
     order_fields s' = order_fields s \<and> order_updates s' = order_updates s"
  by (auto simp: position_body_def order_fields_def Let_def split: sum.splits if_splits)

lemma positions_loop_frame:
  "positions_loop pf symbol ps s lg found = (s', lg', found', x) \<Longrightarrow>
     order_fields s' = order_fields s \<and> order_updates s' = order_updates s"
proof (induction ps arbitrary: s lg found)
  case Nil
  then show ?case by simp
next
  case (Cons p ps)
  show ?case
  proof (cases "position_body pf symbol p s")
    case (Inl e)
    with Cons.prems show ?thesis by simp
  next
    case (Inr r)
    obtain s1 l1 h1 where r: "r = (s1, l1, h1)" by (cases r) auto
    from Cons.prems Inr r
    have "positions_loop pf symbol ps s1 (lg @ l1) (found \<or> h1) = (s', lg', found', x)" by simp
    from Cons.IH[OF this] position_body_frame[OF Inr[unfolded r]]
    show ?thesis by simp
  qed
qed

lemma account_positions_frame:
  "handle_account_positions pf symbol data s = (s', lg, x) \<Longrightarrow>
     order_fields s' = order_fields s \<and> order_updates s' = order_updates s"
  unfolding handle_account_positions_def
  by (auto simp: order_fields_def Let_def split: sum.splits if_splits prod.splits option.splits
           dest!: positions_loop_frame)

lemma fill_event_queued: "queued_by_feed (fill_event i z s d)"
  by (simp add: queued_by_feed_def fill_event_def)

lemma order_body_cases:
  "order_body pf order s = Inr (s', lg, hit) \<Longrightarrow>
     s' = s \<or> (\<exists>i z sy d. s' = s\<lparr>order_updates := order_updates s @ [fill_event i z sy d]\<rparr>)"
  unfolding order_body_def
  by (auto simp: Let_def split: sum.splits if_splits prod.splits)

lemma order_body_frame:
  "order_body pf order s = Inr (s', lg, hit) \<Longrightarrow>
     \<exists>evs. s' = s\<lparr>order_updates := order_updates s @ evs\<rparr> \<and> (\<forall>u \<in> set evs. queued_by_feed u)"
proof -
  assume "order_body pf order s = Inr (s', lg, hit)"
  from order_body_cases[OF this] show ?thesis
  proof
    assume "s' = s"
    then have "s' = s\<lparr>order_updates := order_updates s @ []\<rparr> \<and> (\<forall>u \<in> set []. queued_by_feed u)"
      by simp
    then show ?thesis by blast
  next
    assume "\<exists>i z sy d. s' = s\<lparr>order_updates := order_updates s @ [fill_event i z sy d]\<rparr>"
    then obtain i z sy d where "s' = s\<lparr>order_updates := order_updates s @ [fill_event i z sy d]\<rparr>"
      by blast
    then have "s' = s\<lparr>order_updates := order_updates s @ [fill_event i z sy d]\<rparr>
               \<and> (\<forall>u \<in> set [fill_event i z sy d]. queued_by_feed u)"
      by (simp add: fill_event_queued)
    then show ?thesis by blast
  qed
qed

lemma orders_loop_frame:
  "orders_loop pf os s lg found = (s', lg', found', x) \<Longrightarrow>
     \<exists>evs. s' = s\<lparr>order_updates := order_updates s @ evs\<rparr> \<and> (\<forall>u \<in> set evs. queued_by_feed u)"
proof (induction os arbitrary: s lg found)
  case Nil
  then have "s' = s\<lparr>order_updates := order_updates s @ []\<rparr> \<and> (\<forall>u \<in> set []. queued_by_feed u)"
    by simp
  then show ?case by blast
next
  case (Cons order os)
  show ?case
  proof (cases "order_body pf order s")
    case (Inl e)
    with Cons.prems
    have "s' = s\<lparr>order_updates := order_updates s @ []\<rparr> \<and> (\<forall>u \<in> set []. queued_by_feed u)"
      by simp
    then show ?thesis by blast
  next
    case (Inr r)
    obtain s1 l1 h1 where r: "r = (s1, l1, h1)" by (cases r) auto
    from Cons.prems Inr r
    have "orders_loop pf os s1 (lg @ l1) (found \<or> h1) = (s', lg', found', x)" by simp
    from Cons.IH[OF this] obtain evs2 where
      e2: "s' = s1\<lparr>order_updates := order_updates s1 @ evs2\<rparr>" "\<forall>u \<in> set evs2. queued_by_feed u"
      by blast
    from order_body_frame[OF Inr[unfolded r]] obtain evs1 where
      e1: "s1 = s\<lparr>order_updates := order_updates s @ evs1\<rparr>" "\<forall>u \<in> set evs1. queued_by_feed u"
      by blast
    from e1 e2 have "s' = s\<lparr>order_updates := order_updates s @ (evs1 @ evs2)\<rparr>
        \<and> (\<forall>u \<in> set (evs1 @ evs2). queued_by_feed u)"
      by auto
    then show ?thesis by blast
  qed
qed

lemma missing_order_event_queued: "queued_by_feed (missing_order_event symbol s)"
  by (simp add: missing_order_event_def fill_event_queued)

lemma account_orders_frame:
  "handle_account_orders pf symbol data s = (s', lg, x) \<Longrightarrow>
     \<exists>evs. s' = s\<lparr>order_updates := order_updates s @ evs\<rparr> \<and> (\<forall>u \<in> set evs. queued_by_feed u)"
proof -
  assume h: "handle_account_orders pf symbol data s = (s', lg, x)"
  have nil: "\<exists>evs. s = s\<lparr>order_updates := order_updates s @ evs\<rparr> \<and> (\<forall>u \<in> set evs. queued_by_feed u)"
    by (rule exI[of _ "[]"]) simp
  show ?thesis
  proof (cases "py_get_default data ''data'' (JArr [])")
    case (Inl e)
    with h nil show ?thesis by (simp add: handle_account_orders_def)
  next
    case (Inr orders_list)
    show ?thesis
    proof (cases "truthy (active_order_id s)")
      case False
      with h Inr nil show ?thesis by (simp add: handle_account_orders_def)
    next
      case True
      show ?thesis
      proof (cases "py_iter orders_list")
        case (Inl e)
        with h Inr True nil show ?thesis by (simp add: handle_account_orders_def)
      next
        case (Inr os)
        obtain s1 l1 f1 x1 where lp: "orders_loop pf os s [] False = (s1, l1, f1, x1)"
          by (cases "orders_loop pf os s [] False") auto
        from orders_loop_frame[OF lp] obtain evs1 where
          e1: "s1 = s\<lparr>order_updates := order_updates s @ evs1\<rparr>" "\<forall>u \<in> set evs1. queued_by_feed u"
          by blast
        show ?thesis
        proof (cases "x1 = None \<and> \<not> f1")
          case False
          with h \<open>py_get_default data ''data'' (JArr []) = Inr orders_list\<close> True Inr lp
          have "s' = s1" by (auto simp: handle_account_orders_def split: option.splits if_splits)
          with e1 show ?thesis by blast
        next
          case T2: True
          with h \<open>py_get_default data ''data'' (JArr []) = Inr orders_list\<close> True Inr lp
          have "s' = s1\<lparr>order_updates := order_updates s1 @ [missing_order_event symbol s1]\<rparr>"
            by (auto simp: handle_account_orders_def)
          with e1 have "s' = s\<lparr>order_updates := order_updates s @ (evs1 @ [missing_order_event symbol s1])\<rparr>
             \<and> (\<forall>u \<in> set (evs1 @ [missing_order_event symbol s1]). queued_by_feed u)"
            by (auto simp: missing_order_event_queued)
          then show ?thesis by blast
        qed
      qed
    qed
  qed
qed


lemma py_eq_JStr: "py_eq c (JStr s) \<longleftrightarrow> c = JStr s"
  by (cases c) (auto simp: py_eq_def)

lemma user_data_stages:
  assumes "user_data_on_message pf symbol now (Some data) state = (s', lg, brk)"
    and "py_get data ''channel'' = Inr channel"
    and "\<not> str_lower_has ''subscribed'' data"
  shows "\<exists>s1 l1 x1 s2 l2 x2 s3 l3 x3.
      (if channel = JStr ''account_info''
       then handle_account_info pf now data state else (state, [], None)) = (s1, l1, x1)
    \<and> (if channel = JStr ''account_positions''
       then handle_account_positions pf symbol data s1 else (s1, [], None)) = (s2, l2, x2)
    \<and> (if channel = JStr ''account_orders''
       then handle_account_orders pf symbol data s2 else (s2, [], None)) = (s3, l3, x3)
    \<and> s' = (if x1 \<noteq> None then s1 else if x2 \<noteq> None then s2 else s3)"
proof -
  obtain s1 l1 x1 where r1: "(if channel = JStr ''account_info''
       then handle_account_info pf now data state else (state, [], None)) = (s1, l1, x1)"
    by (metis prod_cases3)
  obtain s2 l2 x2 where r2: "(if channel = JStr ''account_positions''
       then handle_account_positions pf symbol data s1 else (s1, [], None)) = (s2, l2, x2)"
    by (metis prod_cases3)
  obtain s3 l3 x3 where r3: "(if channel = JStr ''account_orders''
       then handle_account_orders pf symbol data s2 else (s2, [], None)) = (s3, l3, x3)"
    by (metis prod_cases3)
  from assms r1 r2 r3
  have "s' = (if x1 \<noteq> None then s1 else if x2 \<noteq> None then s2 else s3)"
    unfolding user_data_on_message_def
    by (simp add: py_eq_JStr Let_def split: if_splits sum.splits)
  with r1 r2 r3 show ?thesis by blast
qed


lemma user_data_trivial:
  assumes "user_data_on_message pf symbol now message state = (s', lg, brk)"
    and "message = None \<or> (\<exists>data. message = Some data \<and>
           ((\<exists>e. py_get data ''channel'' = Inl e) \<or> str_lower_has ''subscribed'' data))"
  shows "s' = state"
  using assms unfolding user_data_on_message_def
  by (auto split: option.splits sum.splits)

lemma user_data_frame:
  assumes h: "user_data_on_message pf symbol now message state = (s', lg, brk)"
  shows "order_fields s' = order_fields state
     \<and> (\<exists>evs. order_updates s' = order_updates state @ evs \<and> (\<forall>u \<in> set evs. queued_by_feed u))
     \<and> (mode s' \<noteq> mode state \<or> position_size s' \<noteq> position_size state \<longrightarrow>
          (\<exists>data. message = Some data \<and> py_get data ''channel'' = Inr (JStr ''account_positions'')))
     \<and> ((\<exists>data. message = Some data \<and> py_get data ''channel'' = Inr (JStr ''account_orders''))
          \<longrightarrow> s'\<lparr>order_updates := order_updates state\<rparr> = state)"
proof (cases "message = None \<or> (\<exists>data. message = Some data \<and>
           ((\<exists>e. py_get data ''channel'' = Inl e) \<or> str_lower_has ''subscribed'' data))")
  case True
  from user_data_trivial[OF h True] have "s' = state" .
  moreover have "\<exists>evs. order_updates state = order_updates state @ evs \<and> (\<forall>u \<in> set evs. queued_by_feed u)"
    by (rule exI[of _ "[]"]) simp
  ultimately show ?thesis by simp
next
  case False
  then obtain data channel where m: "message = Some data"
    and c: "py_get data ''channel'' = Inr channel" and ns: "\<not> str_lower_has ''subscribed'' data"
    by (cases message; cases "py_get (the message) ''channel''") auto
  from user_data_stages[OF h[unfolded m] c ns]
  obtain s1 l1 x1 s2 l2 x2 s3 l3 x3 where
    r1: "(if channel = JStr ''account_info''
       then handle_account_info pf now data state else (state, [], None)) = (s1, l1, x1)"
    and r2: "(if channel = JStr ''account_positions''
       then handle_account_positions pf symbol data s1 else (s1, [], None)) = (s2, l2, x2)"
    and r3: "(if channel = JStr ''account_orders''
       then handle_account_orders pf symbol data s2 else (s2, [], None)) = (s3, l3, x3)"
    and s': "s' = (if x1 \<noteq> None then s1 else if x2 \<noteq> None then s2 else s3)"
    by blast
  have f1: "order_fields s1 = order_fields state \<and> order_updates s1 = order_updates state
     \<and> mode s1 = mode state \<and> position_size s1 = position_size state"
    using r1 account_info_frame by (auto split: if_splits)
  have f2: "order_fields s2 = order_fields s1 \<and> order_updates s2 = order_updates s1"
    using r2 account_positions_frame by (auto split: if_splits)
  have f2': "channel \<noteq> JStr ''account_positions'' \<longrightarrow> s2 = s1"
    using r2 by auto
  have f1': "channel \<noteq> JStr ''account_info'' \<longrightarrow> s1 = state"
    using r1 by auto
  have f3: "\<exists>evs. s3 = s2\<lparr>order_updates := order_updates s2 @ evs\<rparr> \<and> (\<forall>u \<in> set evs. queued_by_feed u)"
  proof (cases "channel = JStr ''account_orders''")
    case True
    with r3 account_orders_frame show ?thesis by auto
  next
    case False
    with r3 have "s3 = s2\<lparr>order_updates := order_updates s2 @ []\<rparr> \<and> (\<forall>u \<in> set []. queued_by_feed u)"
      by simp
    then show ?thesis by blast
  qed
  then obtain evs3 where e3: "s3 = s2\<lparr>order_updates := order_updates s2 @ evs3\<rparr>"
    and q3: "\<forall>u \<in> set evs3. queued_by_feed u" by blast
  have nil: "\<And>q::json list. \<exists>evs. q = q @ evs \<and> (\<forall>u \<in> set evs. queued_by_feed u)"
    by (rule_tac x = "[]" in exI) simp
  have A: "order_fields s' = order_fields state"
    using s' f1 f2 e3 by (auto simp: order_fields_def)
  have B: "\<exists>evs. order_updates s' = order_updates state @ evs \<and> (\<forall>u \<in> set evs. queued_by_feed u)"
  proof (cases "x1 = None \<and> x2 = None")
    case True
    with s' e3 f1 f2 have "order_updates s' = order_updates state @ evs3" by simp
    with q3 show ?thesis by blast
  next
    case False
    with s' f1 f2 have "order_updates s' = order_updates state" by auto
    with nil show ?thesis by simp
  qed
  have C: "mode s' \<noteq> mode state \<or> position_size s' \<noteq> position_size state \<longrightarrow>
          channel = JStr ''account_positions''"
    using s' f1 f2' e3 by (auto split: if_splits)
  have D: "channel = JStr ''account_orders'' \<longrightarrow> s'\<lparr>order_updates := order_updates state\<rparr> = state"
  proof
    assume co: "channel = JStr ''account_orders''"
    with f1' f2' have "s1 = state" "s2 = state" by auto
    with s' e3 show "s'\<lparr>order_updates := order_updates state\<rparr> = state"
      by (auto split: if_splits)
  qed
  from A B C D m c show ?thesis by auto
qed


lemma order_body_no_match:
  "py_get o1 ''i'' = Inr i \<Longrightarrow> \<not> py_eq i (active_order_id s) \<Longrightarrow>
     order_body pf o1 s = Inr (s, [], False)"
  by (simp add: order_body_def)

lemma orders_loop_no_match:
  "\<forall>o1 \<in> set os. \<exists>i. py_get o1 ''i'' = Inr i \<and> \<not> py_eq i (active_order_id s) \<Longrightarrow>
     orders_loop pf os s lg found = (s, lg, found, None)"
  by (induction os arbitrary: lg found) (auto simp: order_body_no_match)

text \<open>
  The claim C2 as stated fails for \<^verbatim>\<open>mode\<close>: an \<^verbatim>\<open>account_positions\<close> message reporting a
  long position of notional 100 switches the state from bid mode to ask mode inside the
  feed task.
\<close>

theorem C2_counterexample:
  "mode working_state = Bid
   \<and> mode (fst (user_data_on_message no_parser ''BTC'' 0 (Some long_position_msg) working_state))
       = Ask"
  by code_simp

text \<open>
  C2, amended. For every inbound message processed by the account feed,
  \<^verbatim>\<open>active_order_id\<close> and the recorded price, side and quantity of the order are left
  unchanged, and the queue is only appended to. \<^verbatim>\<open>mode\<close> and \<^verbatim>\<open>position_size\<close> are left
  unchanged by every message that is not on the \<^verbatim>\<open>account_positions\<close> channel; a message
  on the \<^verbatim>\<open>account_orders\<close> channel changes nothing in the state but the queue, so fills
  seen there reach the controller through the queue only.
\<close>

theorem C2_feed_frame:
  assumes "user_data_on_message pf symbol now message state = (s', lg, brk)"
  shows "active_order_id s' = active_order_id state
     \<and> last_order_price s' = last_order_price state
     \<and> last_order_side s' = last_order_side state
     \<and> last_order_quantity s' = last_order_quantity state
     \<and> (\<exists>evs. order_updates s' = order_updates state @ evs)
     \<and> (mode s' \<noteq> mode state \<or> position_size s' \<noteq> position_size state \<longrightarrow>
          (\<exists>data. message = Some data \<and> py_get data ''channel'' = Inr (JStr ''account_positions'')))
     \<and> ((\<exists>data. message = Some data \<and> py_get data ''channel'' = Inr (JStr ''account_orders''))
          \<longrightarrow> s'\<lparr>order_updates := order_updates state\<rparr> = state)"
proof -
  note f = user_data_frame[OF assms]
  from f have "order_fields s' = order_fields state" by blast
  then have "active_order_id s' = active_order_id state
     \<and> last_order_price s' = last_order_price state
     \<and> last_order_side s' = last_order_side state
     \<and> last_order_quantity s' = last_order_quantity state"
    by (simp add: order_fields_def)
  moreover from f have "\<exists>evs. order_updates s' = order_updates state @ evs" by blast
  ultimately show ?thesis using f by blast
qed

theorem C2_witness:
  "active_order_id (fst (user_data_on_message no_parser ''BTC'' 0 (Some long_position_msg) working_state))
     = JInt 7
   \<and> mode (fst (user_data_on_message no_parser ''BTC'' 0 (Some long_position_msg) working_state))
       \<noteq> mode working_state
   \<and> py_get long_position_msg ''channel'' = Inr (JStr ''account_positions'')
   \<and> py_get other_orders_msg ''channel'' = Inr (JStr ''account_orders'')
   \<and> (fst (user_data_on_message no_parser ''BTC'' 0 (Some other_orders_msg) working_state))
        \<lparr>order_updates := order_updates working_state\<rparr> = working_state"
proof -
  have t: "x = (fst x, fst (snd x), snd (snd x))" for x :: "StrategyState \<times> logs \<times> bool"
    by simp
  note w1 = C2_feed_frame
    [OF t [of "user_data_on_message no_parser ''BTC'' 0 (Some long_position_msg) working_state"]]
  note w2 = C2_feed_frame
    [OF t [of "user_data_on_message no_parser ''BTC'' 0 (Some other_orders_msg) working_state"]]
  have a: "active_order_id working_state = JInt 7"
    by (simp add: working_state_def)
  have b: "mode (fst (user_data_on_message no_parser ''BTC'' 0 (Some long_position_msg) working_state))
       \<noteq> mode working_state
     \<and> py_get long_position_msg ''channel'' = Inr (JStr ''account_positions'')
     \<and> py_get other_orders_msg ''channel'' = Inr (JStr ''account_orders'')"
    by code_simp
  from w1 w2 a b show ?thesis by simp
qed

text \<open>
  The claim C4 as stated fails for the log level: when the active order 7 is missing from
  the list, the entry is queued, and the only log record is at level INFO.
\<close>

theorem C4_counterexample:
  "user_data_on_message no_parser ''BTC'' 0 (Some other_orders_msg) working_state
     = (working_state\<lparr>order_updates :=
          [fill_event (JInt 7) (JNum 2) (JStr ''BTC'') (JStr ''bid'')]\<rparr>,
        [(INFO, ''Active order no longer in open orders (filled or cancelled)'')], False)
   \<and> WARNING \<notin> set (map fst (fst (snd
        (user_data_on_message no_parser ''BTC'' 0 (Some other_orders_msg) working_state))))"
  by code_simp

text \<open>
  C4, amended. For every \<^verbatim>\<open>account_orders\<close> message that does not mention "subscribed",
  received while an order id is tracked (a true value), whose list consists of orders
  with an id different from the tracked one: the feed appends to the queue one
  \<^verbatim>\<open>ORDER_FILLED\<close> entry with status \<^verbatim>\<open>FILLED\<close> for the tracked id, whose filled quantity is
  \<^verbatim>\<open>last_order_quantity\<close>, the quantity of the order as placed (0 when unset or zero), and
  whose side is \<^verbatim>\<open>last_order_side\<close> (\<^verbatim>\<open>'bid'\<close> when unset); it changes nothing else in the
  state; and it logs the event at level INFO, which is the only record when the message
  has no \<^verbatim>\<open>error\<close> key.
\<close>

theorem C4_missing_order_event:
  assumes ch: "py_get data ''channel'' = Inr (JStr ''account_orders'')"
    and ns: "\<not> str_lower_has ''subscribed'' data"
    and act: "truthy (active_order_id state)"
    and ol: "py_get_default data ''data'' (JArr []) = Inr orders_list"
    and it: "py_iter orders_list = Inr os"
    and nm: "\<forall>o1 \<in> set os. \<exists>i. py_get o1 ''i'' = Inr i \<and> \<not> py_eq i (active_order_id state)"
  shows "\<exists>lg' brk.
      user_data_on_message pf symbol now (Some data) state
        = (state\<lparr>order_updates := order_updates state @
              [fill_event (active_order_id state)
                 (case last_order_quantity state of
                    None \<Rightarrow> JInt 0 | Some q \<Rightarrow> if q \<noteq> 0 then JNum q else JInt 0)
                 (JStr symbol)
                 (case last_order_side state of
                    None \<Rightarrow> JStr ''bid'' | Some sd \<Rightarrow> JStr (side_str sd))]\<rparr>,
           (INFO, ''Active order no longer in open orders (filled or cancelled)'') # lg', brk)
      \<and> (\<not> py_has_key data ''error'' \<longrightarrow> lg' = [] \<and> \<not> brk)"
proof -
  from ch obtain kvs where d: "data = JObj kvs"
    by (cases data) (auto simp: py_get_def)
  have ho: "handle_account_orders pf symbol data state
      = (state\<lparr>order_updates := order_updates state @ [missing_order_event symbol state]\<rparr>,
         [(INFO, ''Active order no longer in open orders (filled or cancelled)'')], None)"
    using ol act it orders_loop_no_match[OF nm, of pf "[]" False]
    by (simp add: handle_account_orders_def)
  show ?thesis
    using ch ns ho d
    unfolding user_data_on_message_def
    by (auto simp: py_eq_JStr py_get_def missing_order_event_def split: option.splits sum.splits)
qed

theorem C4_witness:
  "user_data_on_message no_parser ''BTC'' 0 (Some other_orders_msg) working_state
     = (working_state\<lparr>order_updates :=
          [fill_event (JInt 7) (JNum 2) (JStr ''BTC'') (JStr ''bid'')]\<rparr>,
        [(INFO, ''Active order no longer in open orders (filled or cancelled)'')], False)"
proof -
  have p1: "py_get other_orders_msg ''channel'' = Inr (JStr ''account_orders'')"
    by code_simp
  have p2: "\<not> str_lower_has ''subscribed'' other_orders_msg"
    by code_simp
  have p3: "truthy (active_order_id working_state)"
    by code_simp
  have p4: "py_get_default other_orders_msg ''data'' (JArr [])
      = Inr (JArr [JObj [(''i'', JInt 8), (''s'', JStr ''BTC''), (''d'', JStr ''ask''),
                         (''a'', JNum 1), (''f'', JNum 0)]])"
    by code_simp
  have p5: "py_iter (JArr [JObj [(''i'', JInt 8), (''s'', JStr ''BTC''), (''d'', JStr ''ask''),
                         (''a'', JNum 1), (''f'', JNum 0)]])
      = Inr [JObj [(''i'', JInt 8), (''s'', JStr ''BTC''), (''d'', JStr ''ask''),
                         (''a'', JNum 1), (''f'', JNum 0)]]"
    by code_simp
  have p6: "\<forall>o1 \<in> set [JObj [(''i'', JInt 8), (''s'', JStr ''BTC''), (''d'', JStr ''ask''),
                         (''a'', JNum 1), (''f'', JNum 0)]].
      \<exists>i. py_get o1 ''i'' = Inr i \<and> \<not> py_eq i (active_order_id working_state)"
    by (simp add: py_get_def py_eq_def working_state_def)
  have nk: "\<not> py_has_key other_orders_msg ''error''"
    by code_simp
  have ws: "order_updates working_state = [] \<and> active_order_id working_state = JInt 7
      \<and> last_order_quantity working_state = Some 2 \<and> last_order_side working_state = Some Bid"
    by (simp add: working_state_def quoted_state_def init_state_def)
  from C4_missing_order_event [OF p1 p2 p3 p4 p5 p6, of no_parser "''BTC''" 0] nk ws
  show ?thesis by auto
qed

subsection \<open>The price feed's connection flag\<close>









subsection \<open>The queue and the order-reuse branch\<close>

lemma reuse_check_skips:
  "queued_by_feed u \<Longrightarrow> reuse_check pf aid u = Inr None"
  by (cases u) (auto simp: queued_by_feed_def reuse_check_def py_get_def py_eq_def)

lemma wait_loop_skips:
  "\<forall>u \<in> set queue. body u = Inr None \<Longrightarrow> wait_loop body n queue = (TimedOut, drop n queue)"
  by (induction body n queue rule: wait_loop.induct) auto

text \<open>
  C9. Every entry the account feed puts on the queue is a dict with
  \<^verbatim>\<open>'e': 'ORDER_FILLED'\<close> and no key \<^verbatim>\<open>'type'\<close>. For such an entry the test
  \<^verbatim>\<open>update.get('type') == 'order_update'\<close> of the reuse branch is false and the body of its
  loop does nothing. Hence, on a queue of such entries, the wait of the reuse branch ends
  by timeout whatever the number of entries delivered, the entries delivered are removed
  from the queue, and the branch leaves the rest of the state as it was: no fill is
  applied.
\<close>

theorem C9_reuse_monitor_discards_fills:
  "(user_data_on_message pf symbol now message state = (s', lg, brk) \<longrightarrow>
      (\<exists>evs. order_updates s' = order_updates state @ evs \<and> (\<forall>u \<in> set evs. queued_by_feed u)))
   \<and> (queued_by_feed u \<longrightarrow>
        py_get u ''e'' = Inr (JStr ''ORDER_FILLED'') \<and> \<not> py_has_key u ''type''
        \<and> py_get u ''type'' = Inr JNull \<and> \<not> py_eq JNull (JStr ''order_update'')
        \<and> reuse_check pf aid u = Inr None)
   \<and> ((\<forall>u \<in> set queue. queued_by_feed u) \<longrightarrow>
        wait_loop (reuse_check pf aid) n queue = (TimedOut, drop n queue))
   \<and> ((\<forall>u \<in> set (order_updates state @ arriving ev). queued_by_feed u) \<longrightarrow>
        reuse_path pf fm ev state
          = (state\<lparr>order_updates := drop (deliveries ev) (order_updates state @ arriving ev)\<rparr>,
             [Sleep (1 / 100)], None))"
proof -
  have a: "user_data_on_message pf symbol now message state = (s', lg, brk) \<longrightarrow>
      (\<exists>evs. order_updates s' = order_updates state @ evs \<and> (\<forall>u \<in> set evs. queued_by_feed u))"
    using user_data_frame by blast
  have b: "queued_by_feed u \<longrightarrow>
        py_get u ''e'' = Inr (JStr ''ORDER_FILLED'') \<and> \<not> py_has_key u ''type''
        \<and> py_get u ''type'' = Inr JNull \<and> \<not> py_eq JNull (JStr ''order_update'')
        \<and> reuse_check pf aid u = Inr None"
    by (cases u) (auto simp: queued_by_feed_def reuse_check_def py_get_def py_eq_def py_has_key_def)
  have c: "(\<forall>u \<in> set q. queued_by_feed u) \<longrightarrow>
        wait_loop (reuse_check pf a') k q = (TimedOut, drop k q)" for q a' k
    by (simp add: wait_loop_skips reuse_check_skips)
  have d: "(\<forall>u \<in> set (order_updates state @ arriving ev). queued_by_feed u) \<longrightarrow>
        reuse_path pf fm ev state
          = (state\<lparr>order_updates := drop (deliveries ev) (order_updates state @ arriving ev)\<rparr>,
             [Sleep (1 / 100)], None)"
    using c[of "order_updates state @ arriving ev" "active_order_id state" "deliveries ev"]
    by (simp add: reuse_path_def)
  from a b c d show ?thesis by blast
qed

theorem C9_witness:
  "queued_by_feed fill_of_7
   \<and> reuse_path no_parser False (quiet_env\<lparr>arriving := [fill_of_7], deliveries := 5\<rparr>) working_state
       = (working_state, [Sleep (1 / 100)], None)
   \<and> wait_loop (reuse_check no_parser (JInt 7)) 5 [fill_of_7] = (TimedOut, [])
   \<and> order_updates (fst (user_data_on_message no_parser ''BTC'' 0 (Some other_orders_msg) working_state))
       = [fill_of_7]"
proof -
  have t: "x = (fst x, fst (snd x), snd (snd x))" for x :: "StrategyState \<times> logs \<times> bool"
    by simp
  have q: "queued_by_feed fill_of_7"
    by code_simp
  have e: "order_updates (fst (user_data_on_message no_parser ''BTC'' 0 (Some other_orders_msg) working_state))
       = [fill_of_7]"
    by code_simp
  have w: "order_updates working_state = []"
    by (simp add: working_state_def quoted_state_def init_state_def)
  have r: "working_state\<lparr>order_updates := []\<rparr> = working_state"
    by (simp add: working_state_def quoted_state_def init_state_def)
  from C9_reuse_monitor_discards_fills [where u = fill_of_7 and queue = "[fill_of_7]" and n = 5
         and pf = no_parser and aid = "JInt 7" and fm = False and state = working_state
         and ev = "quiet_env\<lparr>arriving := [fill_of_7], deliveries := 5\<rparr>"
         and message = "Some other_orders_msg" and symbol = "''BTC''" and now = 0
         and s' = "fst (user_data_on_message no_parser ''BTC'' 0 (Some other_orders_msg) working_state)"
         and lg = "fst (snd (user_data_on_message no_parser ''BTC'' 0 (Some other_orders_msg) working_state))"
         and brk = "snd (snd (user_data_on_message no_parser ''BTC'' 0 (Some other_orders_msg) working_state))"]
       q e w r
  show ?thesis by (simp add: quiet_env_def)
qed

subsection \<open>The reset after a position desync\<close>



subsection \<open>Cycles during a feed outage\<close>

text \<open>
  A cycle that starts with a feed down consists of the outage branch alone. Its gateway
  calls are read off the state the cycle starts from, and it writes fields that no feed
  writes, so the feeds running during its awaits may be taken to run between cycles.
\<close>

lemma cycle_body_disconnected:
  assumes "\<not> price_ws_connected (st w) \<or> \<not> user_data_ws_connected (st w)"
  shows "cycle_body pf fm symbol flt ev w
       = (case ws_outage_branch symbol (outage_cancel ev) (st w) of
            (state', effs) \<Rightarrow> (w\<lparr>st := state'\<rparr>, effs, None))"
  by (simp only: cycle_body_def if_P[OF assms])

lemma cycle_disconnected:
  assumes "\<not> feeds_connected (st w)"
  shows "market_making_cycle pf fm symbol flt ev w
       = (w\<lparr>st := fst (ws_outage_branch symbol (outage_cancel ev) (st w))\<rparr>,
          snd (ws_outage_branch symbol (outage_cancel ev) (st w)))"
proof -
  from assms have "\<not> price_ws_connected (st w) \<or> \<not> user_data_ws_connected (st w)"
    by (simp add: feeds_connected_def)
  from cycle_body_disconnected[OF this] show ?thesis
    by (simp add: market_making_cycle_def split: prod.splits)
qed

lemma outage_effects:
  "snd (ws_outage_branch symbol c state)
     = (if truthy (active_order_id state)
        then [CancelOrder symbol (active_order_id state), Sleep 1] else [Sleep 1])"
  by (cases c) (simp_all add: ws_outage_branch_def CANCEL_SPECIFIC_ORDER_def Let_def)

lemma outage_state:
  "active_order_id (fst (ws_outage_branch symbol c state))
     = (if truthy (active_order_id state) \<and> c = None then JNull else active_order_id state)"
  by (cases c) (simp_all add: ws_outage_branch_def clear_order_tracking_def Let_def)

lemma run_outage_cycles:
  "\<forall>(s, effs) \<in> set (controller_run pf fm symbol flt run w).
     \<not> feeds_connected s \<longrightarrow>
       effs = (if truthy (active_order_id s)
               then [CancelOrder symbol (active_order_id s), Sleep 1] else [Sleep 1])"
proof (induction run arbitrary: w)
  case Nil
  then show ?case by simp
next
  case (Cons c run)
  obtain feed ev where c: "c = (feed, ev)" by (cases c)
  obtain w1 effs where m: "market_making_cycle pf fm symbol flt ev (feed w) = (w1, effs)"
    by (cases "market_making_cycle pf fm symbol flt ev (feed w)")
  have "\<not> feeds_connected (st (feed w)) \<longrightarrow>
       effs = (if truthy (active_order_id (st (feed w)))
               then [CancelOrder symbol (active_order_id (st (feed w))), Sleep 1] else [Sleep 1])"
    using m cycle_disconnected[of "feed w" pf fm symbol flt ev] outage_effects by auto
  with Cons.IH[of w1] c m show ?case by simp
qed

lemma run_after_cancel:
  "\<not> truthy (active_order_id (st w)) \<Longrightarrow>
   \<forall>(feed, ev) \<in> set run. keeps_order_fields feed \<Longrightarrow>
   \<forall>(s, effs) \<in> set (controller_run pf fm symbol flt run w). \<not> feeds_connected s \<Longrightarrow>
   \<forall>(s, effs) \<in> set (controller_run pf fm symbol flt run w). effs = [Sleep 1]"
proof (induction run arbitrary: w)
  case Nil
  then show ?case by simp
next
  case (Cons c run)
  obtain feed ev where c: "c = (feed, ev)" by (cases c)
  obtain w1 effs where m: "market_making_cycle pf fm symbol flt ev (feed w) = (w1, effs)"
    by (cases "market_making_cycle pf fm symbol flt ev (feed w)")
  from Cons.prems(2) c have k: "keeps_order_fields feed" by simp
  with Cons.prems(1) have a0: "\<not> truthy (active_order_id (st (feed w)))"
    by (simp add: keeps_order_fields_def)
  from Cons.prems(3) c m have d: "\<not> feeds_connected (st (feed w))" by simp
  from m cycle_disconnected[OF d, of pf fm symbol flt ev] a0
  have e: "effs = [Sleep 1]" and w1: "\<not> truthy (active_order_id (st w1))"
    by (auto simp: outage_effects outage_state)
  from Cons.prems(2) have p2: "\<forall>(feed, ev) \<in> set run. keeps_order_fields feed" by simp
  from Cons.prems(3) c m
  have p3: "\<forall>(s, effs) \<in> set (controller_run pf fm symbol flt run w1). \<not> feeds_connected s"
    by simp
  from Cons.IH[OF w1 p2 p3] e c m show ?case by simp
qed


lemma outage_effects_shape:
  "effs = (if t then [CancelOrder symbol i, Sleep 1] else [Sleep 1]) \<Longrightarrow>
     \<not> (\<exists>x \<in> set effs. is_place x)
     \<and> length (filter is_cancel effs) = (if t then 1 else 0)"
  by (simp add: is_place_def is_cancel_def)

lemma quiet_run_no_cancel:
  "\<forall>(s, effs) \<in> set r. effs = [Sleep 1] \<Longrightarrow> filter is_cancel (run_effects r) = []"
  by (induction r) (auto simp: run_effects_def is_cancel_def)

lemma run_cancel_count:
  "truthy (active_order_id (st w)) \<Longrightarrow>
   \<forall>(feed, ev) \<in> set run. keeps_order_fields feed \<Longrightarrow>
   \<forall>(s, effs) \<in> set (controller_run pf fm symbol flt run w). \<not> feeds_connected s \<Longrightarrow>
   length (filter is_cancel (run_effects (controller_run pf fm symbol flt run w)))
     = cycles_to_first_cancel run"
proof (induction run arbitrary: w)
  case Nil
  then show ?case by (simp add: run_effects_def)
next
  case (Cons c run)
  obtain feed ev where c: "c = (feed, ev)" by (cases c)
  obtain w1 effs where m: "market_making_cycle pf fm symbol flt ev (feed w) = (w1, effs)"
    by (cases "market_making_cycle pf fm symbol flt ev (feed w)")
  from Cons.prems(2) c have k: "keeps_order_fields feed" by simp
  with Cons.prems(1) have a0: "truthy (active_order_id (st (feed w)))"
    by (simp add: keeps_order_fields_def)
  from Cons.prems(3) c m have d: "\<not> feeds_connected (st (feed w))" by simp
  from m cycle_disconnected[OF d, of pf fm symbol flt ev] a0
  have e: "effs = [CancelOrder symbol (active_order_id (st (feed w))), Sleep 1]"
    and i1: "active_order_id (st w1)
               = (if outage_cancel ev = None then JNull else active_order_id (st (feed w)))"
    by (auto simp: outage_effects outage_state)
  from e have n: "length (filter is_cancel effs) = 1" by (simp add: is_cancel_def)
  from Cons.prems(2) have p2: "\<forall>(feed, ev) \<in> set run. keeps_order_fields feed" by simp
  from Cons.prems(3) c m
  have p3: "\<forall>(s, effs) \<in> set (controller_run pf fm symbol flt run w1). \<not> feeds_connected s"
    by simp
  have r: "run_effects (controller_run pf fm symbol flt (c # run) w)
         = effs @ run_effects (controller_run pf fm symbol flt run w1)"
    using c m by (simp add: run_effects_def)
  from r n
  have l: "length (filter is_cancel (run_effects (controller_run pf fm symbol flt (c # run) w)))
         = 1 + length (filter is_cancel (run_effects (controller_run pf fm symbol flt run w1)))"
    by simp
  have f: "cycles_to_first_cancel (c # run)
         = (if outage_cancel ev = None then 1 else 1 + cycles_to_first_cancel run)"
    using c by simp
  show ?case
  proof (cases "outage_cancel ev = None")
    case True
    with i1 have "\<not> truthy (active_order_id (st w1))" by simp
    from quiet_run_no_cancel[OF run_after_cancel[OF this p2 p3]]
    have "length (filter is_cancel (run_effects (controller_run pf fm symbol flt run w1))) = 0"
      by simp
    with l f True show ?thesis by (simp only: simp_thms if_True add_0_right)
  next
    case False
    with i1 a0 have "truthy (active_order_id (st w1))" by simp
    from Cons.IH[OF this p2 p3] l f False show ?thesis by (simp only: simp_thms if_False)
  qed
qed

text \<open>
  The claim C3 as stated fails. When the cancel raises, the handler logs the error and
  leaves \<^verbatim>\<open>active_order_id\<close> set, so the next cycle of the outage cancels again: three
  cycles with both feeds down and a gateway that refuses the cancel give three cancel
  calls for order 7, not one.
\<close>

theorem C3_counterexample:
  "\<not> feeds_connected (st outage_world) \<and> truthy (active_order_id (st outage_world))
   \<and> controller_run no_parser False ''BTC'' example_filters
        [(no_feed_writes, failing_cancel_env), (no_feed_writes, failing_cancel_env),
         (no_feed_writes, failing_cancel_env)] outage_world
       = [(working_state, [CancelOrder ''BTC'' (JInt 7), Sleep 1]),
          (working_state, [CancelOrder ''BTC'' (JInt 7), Sleep 1]),
          (working_state, [CancelOrder ''BTC'' (JInt 7), Sleep 1])]
   \<and> length (filter is_cancel (run_effects (controller_run no_parser False ''BTC'' example_filters
        [(no_feed_writes, failing_cancel_env), (no_feed_writes, failing_cancel_env),
         (no_feed_writes, failing_cancel_env)] outage_world))) = 3"
  by code_simp

text \<open>
  C3, amended. In every run of the controller, with the feeds writing to the state between
  the cycles, every cycle that starts while a feed is not connected does this and no more:
  if an order is active it issues exactly one cancel, for that order, and sleeps one
  second, whether the cancel returns or raises; it never places an order. When the cancel
  of such a cycle returns, the following cycles issue no gateway call at all for as long
  as a feed stays down (the feeds do not write \<^verbatim>\<open>active_order_id\<close>). When it raises, the
  order stays active and the next cycle cancels again: over an outage that starts with an
  order active, the number of cancel calls is the number of cycles up to and including
  the first one whose cancel returns, which is one only when the first cancel returns.
\<close>

theorem C3_outage_cancel:
  "(\<forall>(s, effs) \<in> set (controller_run pf fm symbol flt run w).
      \<not> feeds_connected s \<longrightarrow>
        effs = (if truthy (active_order_id s)
                then [CancelOrder symbol (active_order_id s), Sleep 1] else [Sleep 1])
        \<and> \<not> (\<exists>x \<in> set effs. is_place x)
        \<and> length (filter is_cancel effs) = (if truthy (active_order_id s) then 1 else 0))
   \<and> (\<not> feeds_connected (st w') \<and> outage_cancel ev = None
        \<and> (\<forall>(feed, ev') \<in> set run'. keeps_order_fields feed)
        \<and> (\<forall>(s, effs) \<in> set (controller_run pf fm symbol flt run'
                                  (fst (market_making_cycle pf fm symbol flt ev w'))).
              \<not> feeds_connected s)
      \<longrightarrow> (\<forall>(s, effs) \<in> set (controller_run pf fm symbol flt run'
                                  (fst (market_making_cycle pf fm symbol flt ev w'))).
              effs = [Sleep 1]))
   \<and> (truthy (active_order_id (st w''))
        \<and> (\<forall>(feed, ev') \<in> set run''. keeps_order_fields feed)
        \<and> (\<forall>(s, effs) \<in> set (controller_run pf fm symbol flt run'' w''). \<not> feeds_connected s)
      \<longrightarrow> length (filter is_cancel (run_effects (controller_run pf fm symbol flt run'' w'')))
            = cycles_to_first_cancel run''
          \<and> \<not> (\<exists>x \<in> set (run_effects (controller_run pf fm symbol flt run'' w'')). is_place x))"
proof -
  have a: "\<forall>(s, effs) \<in> set (controller_run pf fm symbol flt run w).
      \<not> feeds_connected s \<longrightarrow>
        effs = (if truthy (active_order_id s)
                then [CancelOrder symbol (active_order_id s), Sleep 1] else [Sleep 1])
        \<and> \<not> (\<exists>x \<in> set effs. is_place x)
        \<and> length (filter is_cancel effs) = (if truthy (active_order_id s) then 1 else 0)"
  proof (intro ballI)
    fix c assume c: "c \<in> set (controller_run pf fm symbol flt run w)"
    obtain s effs where se: "c = (s, effs)" by (cases c)
    from run_outage_cycles[of pf fm symbol flt run w] c se
    have e: "\<not> feeds_connected s \<longrightarrow>
        effs = (if truthy (active_order_id s)
                then [CancelOrder symbol (active_order_id s), Sleep 1] else [Sleep 1])"
      by blast
    from e outage_effects_shape[of effs "truthy (active_order_id s)" symbol "active_order_id s"] se
    show "case c of (s, effs) \<Rightarrow>
      \<not> feeds_connected s \<longrightarrow>
        effs = (if truthy (active_order_id s)
                then [CancelOrder symbol (active_order_id s), Sleep 1] else [Sleep 1])
        \<and> \<not> (\<exists>x \<in> set effs. is_place x)
        \<and> length (filter is_cancel effs) = (if truthy (active_order_id s) then 1 else 0)"
      by simp
  qed
  have b: "\<not> feeds_connected (st w') \<and> outage_cancel ev = None
        \<and> (\<forall>(feed, ev') \<in> set run'. keeps_order_fields feed)
        \<and> (\<forall>(s, effs) \<in> set (controller_run pf fm symbol flt run'
                                  (fst (market_making_cycle pf fm symbol flt ev w'))).
              \<not> feeds_connected s)
      \<longrightarrow> (\<forall>(s, effs) \<in> set (controller_run pf fm symbol flt run'
                                  (fst (market_making_cycle pf fm symbol flt ev w'))).
              effs = [Sleep 1])"
  proof (intro impI, elim conjE)
    assume d: "\<not> feeds_connected (st w')" and c: "outage_cancel ev = None"
      and k: "\<forall>(feed, ev') \<in> set run'. keeps_order_fields feed"
      and o: "\<forall>(s, effs) \<in> set (controller_run pf fm symbol flt run'
                                  (fst (market_making_cycle pf fm symbol flt ev w'))).
              \<not> feeds_connected s"
    have "\<not> truthy (active_order_id (st (fst (market_making_cycle pf fm symbol flt ev w'))))"
      using cycle_disconnected[OF d, of pf fm symbol flt ev] c
      by (simp add: outage_state)
    from run_after_cancel[OF this k o]
    show "\<forall>(s, effs) \<in> set (controller_run pf fm symbol flt run'
                                  (fst (market_making_cycle pf fm symbol flt ev w'))).
              effs = [Sleep 1]" .
  qed
  have c: "truthy (active_order_id (st w''))
        \<and> (\<forall>(feed, ev') \<in> set run''. keeps_order_fields feed)
        \<and> (\<forall>(s, effs) \<in> set (controller_run pf fm symbol flt run'' w''). \<not> feeds_connected s)
      \<longrightarrow> length (filter is_cancel (run_effects (controller_run pf fm symbol flt run'' w'')))
            = cycles_to_first_cancel run''
          \<and> \<not> (\<exists>x \<in> set (run_effects (controller_run pf fm symbol flt run'' w'')). is_place x)"
  proof (intro impI, elim conjE)
    assume t: "truthy (active_order_id (st w''))"
      and k: "\<forall>(feed, ev') \<in> set run''. keeps_order_fields feed"
      and o: "\<forall>(s, effs) \<in> set (controller_run pf fm symbol flt run'' w''). \<not> feeds_connected s"
    have np: "\<not> (\<exists>x \<in> set (run_effects (controller_run pf fm symbol flt run'' w'')). is_place x)"
    proof
      assume "\<exists>x \<in> set (run_effects (controller_run pf fm symbol flt run'' w'')). is_place x"
      then obtain x cy where cy: "cy \<in> set (controller_run pf fm symbol flt run'' w'')"
        and x: "x \<in> set (snd cy)" "is_place x"
        by (auto simp: run_effects_def)
      obtain s effs where se: "cy = (s, effs)" by (cases cy)
      from o cy se have "\<not> feeds_connected s" by auto
      with run_outage_cycles[of pf fm symbol flt run'' w''] cy se
      have "effs = (if truthy (active_order_id s)
               then [CancelOrder symbol (active_order_id s), Sleep 1] else [Sleep 1])"
        by blast
      with x se show False by (auto simp: is_place_def split: if_splits)
    qed
    from run_cancel_count[OF t k o] np
    show "length (filter is_cancel (run_effects (controller_run pf fm symbol flt run'' w'')))
            = cycles_to_first_cancel run''
          \<and> \<not> (\<exists>x \<in> set (run_effects (controller_run pf fm symbol flt run'' w'')). is_place x)"
      by simp
  qed
  from a b c show ?thesis by blast
qed

text \<open>
  An outage with order 7 working: the first cancel times out, the second returns, and the
  third cycle only sleeps; two cancel calls in all.
\<close>

theorem C3_witness:
  "\<not> feeds_connected (st outage_world) \<and> truthy (active_order_id (st outage_world))
   \<and> controller_run no_parser False ''BTC'' example_filters
        [(no_feed_writes, quiet_env\<lparr>outage_cancel := Some TimeoutError\<rparr>),
         (no_feed_writes, quiet_env), (no_feed_writes, quiet_env)] outage_world
       = [(working_state, [CancelOrder ''BTC'' (JInt 7), Sleep 1]),
          (working_state, [CancelOrder ''BTC'' (JInt 7), Sleep 1]),
          (clear_order_tracking (working_state\<lparr>active_order_id := JNull\<rparr>), [Sleep 1])]
   \<and> map snd (controller_run no_parser False ''BTC'' example_filters
          [(no_feed_writes, quiet_env), (no_feed_writes, quiet_env)]
          (fst (market_making_cycle no_parser False ''BTC'' example_filters quiet_env outage_world)))
       = [[Sleep 1], [Sleep 1]]
   \<and> length (filter is_cancel (run_effects (controller_run no_parser False ''BTC'' example_filters
        [(no_feed_writes, quiet_env\<lparr>outage_cancel := Some TimeoutError\<rparr>),
         (no_feed_writes, quiet_env), (no_feed_writes, quiet_env)] outage_world))) = 2"
proof -
  let ?S = "clear_order_tracking (working_state\<lparr>active_order_id := JNull\<rparr>)"
  let ?run = "[(no_feed_writes, quiet_env\<lparr>outage_cancel := Some TimeoutError\<rparr>),
               (no_feed_writes, quiet_env), (no_feed_writes, quiet_env)]"
  have r1: "controller_run no_parser False ''BTC'' example_filters ?run outage_world
       = [(working_state, [CancelOrder ''BTC'' (JInt 7), Sleep 1]),
          (working_state, [CancelOrder ''BTC'' (JInt 7), Sleep 1]),
          (?S, [Sleep 1])]"
    by code_simp
  have r2: "controller_run no_parser False ''BTC'' example_filters
          [(no_feed_writes, quiet_env), (no_feed_writes, quiet_env)]
          (fst (market_making_cycle no_parser False ''BTC'' example_filters quiet_env outage_world))
       = [(?S, [Sleep 1]), (?S, [Sleep 1])]"
    by code_simp
  have nc: "\<not> feeds_connected (st outage_world) \<and> \<not> feeds_connected ?S
      \<and> \<not> feeds_connected working_state
      \<and> truthy (active_order_id (st outage_world)) \<and> outage_cancel quiet_env = None"
    by code_simp
  have n: "cycles_to_first_cancel ?run = 2"
    by code_simp
  have k: "keeps_order_fields no_feed_writes"
    by (simp add: keeps_order_fields_def no_feed_writes_def)
  have h1: "truthy (active_order_id (st outage_world))
      \<and> (\<forall>(feed, ev') \<in> set ?run. keeps_order_fields feed)
      \<and> (\<forall>(s, effs) \<in> set (controller_run no_parser False ''BTC'' example_filters ?run
                                outage_world). \<not> feeds_connected s)"
    unfolding r1 using nc k by simp
  have h2: "\<not> feeds_connected (st outage_world) \<and> outage_cancel quiet_env = None
      \<and> (\<forall>(feed, ev') \<in> set [(no_feed_writes, quiet_env), (no_feed_writes, quiet_env)].
            keeps_order_fields feed)
      \<and> (\<forall>(s, effs) \<in> set (controller_run no_parser False ''BTC'' example_filters
                                [(no_feed_writes, quiet_env), (no_feed_writes, quiet_env)]
                                (fst (market_making_cycle no_parser False ''BTC'' example_filters
                                        quiet_env outage_world))).
            \<not> feeds_connected s)"
    unfolding r2 using nc k by simp
  note c = C3_outage_cancel [where pf = no_parser and fm = False and symbol = "''BTC''"
         and flt = example_filters and w = outage_world and w' = outage_world and ev = quiet_env
         and run = ?run
         and run' = "[(no_feed_writes, quiet_env), (no_feed_writes, quiet_env)]"
         and w'' = outage_world and run'' = ?run]
  from c h1
  have cnt: "length (filter is_cancel (run_effects
        (controller_run no_parser False ''BTC'' example_filters ?run outage_world)))
      = cycles_to_first_cancel ?run"
    by blast
  from c h2
  have q: "\<forall>(s, effs) \<in> set (controller_run no_parser False ''BTC'' example_filters
                                [(no_feed_writes, quiet_env), (no_feed_writes, quiet_env)]
                                (fst (market_making_cycle no_parser False ''BTC'' example_filters
                                        quiet_env outage_world))).
            effs = [Sleep 1]"
    by blast
  have m: "map snd (controller_run no_parser False ''BTC'' example_filters
          [(no_feed_writes, quiet_env), (no_feed_writes, quiet_env)]
          (fst (market_making_cycle no_parser False ''BTC'' example_filters quiet_env outage_world)))
       = [[Sleep 1], [Sleep 1]]"
    using q unfolding r2 by simp
  from nc r1 m cnt n show ?thesis by (simp only: simp_thms)
qed

subsection \<open>Quantization of the quantity\<close>

text \<open>
  In exact arithmetic \<^verbatim>\<open>round_down\<close> is idempotent and never exceeds a non-negative input,
  and formatting its result changes nothing. What follows for the program depends on the
  rounding of its float operations.
\<close>

lemma py_int_of_int: "py_int (of_int k) = k"
  by (simp add: py_int_def)

lemma round_down_exact_idempotent: "round_down (round_down v p) p = round_down v p"
  by (simp add: round_down_def Let_def py_int_of_int)

lemma round_down_exact_le: "0 \<le> v \<Longrightarrow> round_down v p \<le> v"
proof -
  assume v: "0 \<le> v"
  have f: "(0::rat) < 10 ^ p" by simp
  have "of_int \<lfloor>v * 10 ^ p\<rfloor> \<le> v * 10 ^ p" by (rule of_int_floor_le)
  then have "of_int \<lfloor>v * 10 ^ p\<rfloor> / 10 ^ p \<le> v"
    using f by (simp add: pos_divide_le_eq)
  with v show ?thesis by (simp add: round_down_def Let_def py_int_def)
qed

lemma quantize_quantity_exact:
  "quantize_quantity flt q = round_down q (quantity_precision flt)"
  by (simp add: quantize_quantity_def fmt_fixed_def round_down_def Let_def py_round_of_int)

text \<open>
  C7, evaluated in binary64 at the quantity 0.29 with two decimals. The float 0.29 is a
  quantized quantity: it is what the code makes of 0.295. Quantized again it becomes 0.28:
  the product \<^verbatim>\<open>0.29 * 100\<close> is rounded to 28.999999999999996, which \<^verbatim>\<open>int\<close> truncates to 28.
  So the quantization of the program is not idempotent, against the claim.
\<close>

theorem C7_quantity_not_idempotent_binary64:
  "quantize_quantity_b64 (example_filters\<lparr>quantity_precision := 2\<rparr>) (b64 (295 / 1000))
     = b64 (29 / 100)
   \<and> quantize_quantity_b64 (example_filters\<lparr>quantity_precision := 2\<rparr>) (b64 (29 / 100))
     = b64 (28 / 100)
   \<and> b64 (28 / 100) < b64 (29 / 100)
   \<and> b64 (29 / 100) = 5224175567749775 / 2 ^ 54
   \<and> b64 (b64 (29 / 100) * b64 100) = 8162774324609023 / 2 ^ 48
   \<and> py_int (b64 (b64 (29 / 100) * b64 100)) = 28
   \<and> round_down_b64 (b64 (29 / 100)) 2 = b64 (28 / 100)"
  by code_simp


end
